theory Spec2Isabelle
  imports Complex_Main
begin

section \<open>The host scene graph\<close>

text \<open>
  The add-on runs inside a 3D host and works on the host's datablocks through
  references. Objects, mesh datablocks and actions live in stores indexed by
  their identity; an object refers to its mesh by the mesh's identity, so two
  objects may share one mesh. A reference to a removed datablock no longer
  resolves, and using it raises.
\<close>

type_synonym oid = nat
type_synonym mid = nat
type_synonym aid = nat

datatype py_error = AttributeError | IndexError | TypeError | ReferenceError | RuntimeError

datatype op_result = FINISHED | CANCELLED

datatype apply_action = ALL_MODIFIERS | ALL_MODIFIERS_WITH_SHAPEKEYS

datatype toggle_action = TOGGLE | MUTE | UNMUTE

record modifier =
  mod_name :: string
  mod_type :: string
  show_only_control_edges :: bool
  mod_object :: "oid option"

record 'g shape_key =
  sk_name :: string
  sk_mute :: bool
  slider_min :: real
  slider_max :: real
  sk_value :: real
  interpolation :: string
  lock_shape :: bool
  vertex_group :: string
  sk_data :: 'g

record target =
  tgt_id :: "oid option"
  tgt_data_path :: string
  bone_target :: string
  transform_space :: string
  transform_type :: string

record variable =
  var_name :: string
  var_type :: string
  targets :: "target list"

text \<open>A driver is an F-curve with a driver block; the block's fields are kept flat.\<close>

record fcurve =
  data_path :: string
  fc_mute :: bool
  driver_type :: string
  expression :: string
  use_self :: bool
  variables :: "variable list"

record strip =
  strip_name :: string
  strip_frame_start :: real
  strip_action :: "aid option"
  blend_in :: real
  blend_out :: real
  use_auto_blend :: bool
  extrapolation :: string

record track =
  track_name :: string
  is_solo :: bool
  track_mute :: bool
  strips :: "strip list"

record anim_data =
  action :: "aid option"
  drivers :: "fcurve list"
  nla_tracks :: "track list"

record action_block =
  act_name :: string
  keyframes :: "(string \<times> int) list"

record 'g key =
  key_name :: string
  key_blocks :: "'g shape_key list"
  animation_data :: "anim_data option"

record 'g mesh =
  geometry :: 'g
  shape_keys :: "'g key option"

record bone =
  location :: "real \<times> real \<times> real"
  rotation_quaternion :: "real \<times> real \<times> real \<times> real"
  rotation_euler :: "real \<times> real \<times> real"

record object =
  obj_name :: string
  obj_type :: string
  obj_data :: mid
  modifiers :: "modifier list"
  location_x :: real
  pose_bones :: "bone list option"

text \<open>
  What the host did on the add-on's behalf is logged: the outcome of every
  modifier application, every modifier removal and every pose reset. The log is
  the observable order of the host calls; no function reads it.
\<close>

datatype event =
    ApplyOk oid modifier
  | ApplyFailed oid modifier
  | ModRemoved oid modifier
  | PoseReset oid

record 'g world =
  objects :: "oid \<Rightarrow> object option"
  meshes :: "mid \<Rightarrow> 'g mesh option"
  actions :: "aid \<Rightarrow> action_block option"
  selected :: "oid list"
  active :: "oid option"
  next_id :: nat
  scene_frame_start :: int
  scene_frame_end :: int
  frame_current :: int
  BAKE_SHAPEKEY_ANIMATION_FRAME_START :: "int option"
  BAKE_SHAPEKEY_ANIMATION_FRAME_END :: "int option"
  BAKE_SHAPEKEY_ANIMATION_EXECUTE :: bool
  reports :: "(string \<times> string) list"
  events :: "event list"

text \<open>
  The host primitives whose outcome the add-on cannot see into are parameters:
  \<open>mod_apply\<close> is the geometry a modifier bakes into the active object (None
  when the host refuses and raises); \<open>join_ok\<close> says whether a donor geometry
  can be joined to a receiver geometry as a shape; \<open>unique_name taken v\<close> is
  the name the host gives a shape key when \<open>v\<close> is stored as its name and the
  other keys of its container bear the names \<open>taken\<close> (the host keeps the
  names within a container distinct); \<open>auto_blend\<close> is the blend-in and
  blend-out the host computes for a strip whose blending is automatic.
\<close>

record 'g host =
  mod_apply :: "'g world \<Rightarrow> oid \<Rightarrow> modifier \<Rightarrow> 'g option"
  join_ok :: "'g \<Rightarrow> 'g \<Rightarrow> bool"
  unique_name :: "string list \<Rightarrow> string \<Rightarrow> string"
  auto_blend :: "'g world \<Rightarrow> strip \<Rightarrow> real \<times> real"

section \<open>Helpers of the embedding\<close>

definition report :: "string \<Rightarrow> string \<Rightarrow> 'g world \<Rightarrow> 'g world" where
  "report level msg w = w\<lparr>reports := reports w @ [(level, msg)]\<rparr>"

text \<open>\<open>str(n)\<close> of a natural number: its decimal digits.\<close>

definition digit_char :: "nat \<Rightarrow> char" where
  "digit_char d = ''0123456789'' ! d"

fun str_nat :: "nat \<Rightarrow> string" where
  "str_nat n =
     (if n < 10 then [digit_char n]
      else str_nat (n div 10) @ [digit_char (n mod 10)])"

text \<open>A list comprehension whose condition may raise.\<close>

fun filterE :: "('a \<Rightarrow> py_error + bool) \<Rightarrow> 'a list \<Rightarrow> py_error + 'a list" where
  "filterE p [] = Inr []"
| "filterE p (x # xs) =
     (case p x of
        Inl e \<Rightarrow> Inl e
      | Inr b \<Rightarrow>
          (case filterE p xs of
             Inl e \<Rightarrow> Inl e
           | Inr ys \<Rightarrow> Inr (if b then x # ys else ys)))"

text \<open>\<open>obj.type == "MESH"\<close>\<close>

definition is_mesh :: "'g world \<Rightarrow> oid \<Rightarrow> py_error + bool" where
  "is_mesh w i =
     (case objects w i of
        None \<Rightarrow> Inl ReferenceError
      | Some ob \<Rightarrow> Inr (obj_type ob = ''MESH''))"

text \<open>\<open>obj.type == "MESH" and obj.data.shape_keys is not None\<close>\<close>

definition is_mesh_with_sk :: "'g world \<Rightarrow> oid \<Rightarrow> py_error + bool" where
  "is_mesh_with_sk w i =
     (case objects w i of
        None \<Rightarrow> Inl ReferenceError
      | Some ob \<Rightarrow>
          if obj_type ob \<noteq> ''MESH'' then Inr False
          else (case meshes w (obj_data ob) of
                  None \<Rightarrow> Inl ReferenceError
                | Some me \<Rightarrow> Inr (shape_keys me \<noteq> None)))"

definition empty_anim :: anim_data where
  "empty_anim = \<lparr>action = None, drivers = [], nla_tracks = []\<rparr>"

text \<open>\<open>animation_data_create()\<close>: create-if-absent.\<close>

definition animation_data_create :: "'g key \<Rightarrow> 'g key" where
  "animation_data_create k =
     (case animation_data k of
        None \<Rightarrow> k\<lparr>animation_data := Some empty_anim\<rparr>
      | Some ad \<Rightarrow> k)"

section \<open>Toggle Shapekey Drivers\<close>

text \<open>
  The body of the loop over one driver. The host's driver collection holds
  F-curves only, so the source's test \<open>driver is not None\<close> is always true.
\<close>

definition toggle_driver :: "toggle_action \<Rightarrow> fcurve \<Rightarrow> fcurve" where
  "toggle_driver act d =
     (let d1 = (if act = TOGGLE then d\<lparr>fc_mute := \<not> fc_mute d\<rparr> else d);
          d2 = (if act = MUTE then d1\<lparr>fc_mute := True\<rparr> else d1);
          d3 = (if act = UNMUTE then d2\<lparr>fc_mute := False\<rparr> else d2)
      in d3)"

definition toggle_key :: "toggle_action \<Rightarrow> 'g key \<Rightarrow> 'g key" where
  "toggle_key act k =
     (let k1 = (if animation_data k = None then animation_data_create k else k)
      in (case animation_data k1 of
            None \<Rightarrow> k1
          | Some ad \<Rightarrow>
              k1\<lparr>animation_data := Some (ad\<lparr>drivers := map (toggle_driver act) (drivers ad)\<rparr>)\<rparr>))"

definition key_drivers :: "'g key \<Rightarrow> fcurve list" where
  "key_drivers k = (case animation_data k of None \<Rightarrow> [] | Some ad \<Rightarrow> drivers ad)"

fun toggle_loop ::
  "toggle_action \<Rightarrow> oid list \<Rightarrow> nat \<Rightarrow> nat \<Rightarrow> 'g world \<Rightarrow> (py_error + nat \<times> nat) \<times> 'g world" where
  "toggle_loop act [] num_toggled num_toggled_obj w = (Inr (num_toggled, num_toggled_obj), w)"
| "toggle_loop act (i # rest) num_toggled num_toggled_obj w =
     (case objects w i of
        None \<Rightarrow> (Inl ReferenceError, w)
      | Some ob \<Rightarrow>
          (case meshes w (obj_data ob) of
             None \<Rightarrow> (Inl ReferenceError, w)
           | Some me \<Rightarrow>
               (case shape_keys me of
                  None \<Rightarrow> (Inl AttributeError, w)
                | Some k \<Rightarrow>
                    let k' = toggle_key act k;
                        n = length (key_drivers k');
                        w' = w\<lparr>meshes := (meshes w)(obj_data ob \<mapsto> me\<lparr>shape_keys := Some k'\<rparr>)\<rparr>
                    in toggle_loop act rest (num_toggled + n)
                         (if n > 0 then num_toggled_obj + 1 else num_toggled_obj) w')))"

definition action_word :: "toggle_action \<Rightarrow> string" where
  "action_word act =
     (if act = TOGGLE then ''Toggled''
      else if act = MUTE then ''Muted''
      else ''Unmuted'')"

definition toggle_execute :: "toggle_action \<Rightarrow> 'g world \<Rightarrow> (py_error + op_result) \<times> 'g world" where
  "toggle_execute act w =
     (case filterE (is_mesh_with_sk w) (selected w) of
        Inl e \<Rightarrow> (Inl e, w)
      | Inr objs \<Rightarrow>
          if length objs = 0 then
            (Inr CANCELLED,
             report ''ERROR''
               ''No appropriate mesh selected. Please select at least 1 mesh with shape key that has driver on it'' w)
          else
            (case toggle_loop act objs 0 0 w of
               (Inl e, w') \<Rightarrow> (Inl e, w')
             | (Inr (num_toggled, num_toggled_obj), w') \<Rightarrow>
                 (Inr FINISHED,
                  report ''INFO''
                    (action_word act @ '' '' @ str_nat num_toggled @ '' drivers for ''
                       @ str_nat num_toggled_obj @ '' objects'') w')))"

section \<open>Bake Shapekey Animation\<close>

text \<open>The property accessors behind \<open>start_frame\<close>, \<open>end_frame\<close> and \<open>execute_ot\<close>.\<close>

definition set_start_frame :: "int \<Rightarrow> 'g world \<Rightarrow> 'g world" where
  "set_start_frame v w =
     w\<lparr>BAKE_SHAPEKEY_ANIMATION_FRAME_START :=
         Some (max (scene_frame_start w) (min v (scene_frame_end w)))\<rparr>"

definition set_end_frame :: "int \<Rightarrow> 'g world \<Rightarrow> 'g world" where
  "set_end_frame v w =
     w\<lparr>BAKE_SHAPEKEY_ANIMATION_FRAME_END :=
         Some (max (scene_frame_start w) (min v (scene_frame_end w)))\<rparr>"

definition get_start_frame :: "'g world \<Rightarrow> int option \<times> 'g world" where
  "get_start_frame w =
     (let w' = (if BAKE_SHAPEKEY_ANIMATION_FRAME_START w = None then set_start_frame 0 w else w)
      in (BAKE_SHAPEKEY_ANIMATION_FRAME_START w', w'))"

definition get_end_frame :: "'g world \<Rightarrow> int option \<times> 'g world" where
  "get_end_frame w =
     (let w' = (if BAKE_SHAPEKEY_ANIMATION_FRAME_END w = None then set_end_frame 0 w else w)
      in (BAKE_SHAPEKEY_ANIMATION_FRAME_END w', w'))"

definition set_execute :: "bool \<Rightarrow> 'g world \<Rightarrow> 'g world" where
  "set_execute v w = w\<lparr>BAKE_SHAPEKEY_ANIMATION_EXECUTE := v\<rparr>"

definition get_execute :: "'g world \<Rightarrow> bool" where
  "get_execute w = BAKE_SHAPEKEY_ANIMATION_EXECUTE w"

text \<open>
  Host primitive \<open>keyframe_insert(data_path, frame=frame)\<close> on the shape-key
  container of an object: the keyframe goes into the container's action, which
  the host creates when there is none. The keyed value is the host's evaluation
  of the property and is not part of the model.
\<close>

definition keyframe_insert :: "oid \<Rightarrow> string \<Rightarrow> int \<Rightarrow> 'g world \<Rightarrow> (py_error + unit) \<times> 'g world" where
  "keyframe_insert obj path frame w =
     (case objects w obj of
        None \<Rightarrow> (Inl ReferenceError, w)
      | Some ob \<Rightarrow>
          (case meshes w (obj_data ob) of
             None \<Rightarrow> (Inl ReferenceError, w)
           | Some me \<Rightarrow>
               (case shape_keys me of
                  None \<Rightarrow> (Inl AttributeError, w)
                | Some k \<Rightarrow>
                    let ad = (case animation_data k of None \<Rightarrow> empty_anim | Some a \<Rightarrow> a)
                    in (case action ad of
                          None \<Rightarrow>
                            let a = next_id w;
                                k' = k\<lparr>animation_data := Some (ad\<lparr>action := Some a\<rparr>)\<rparr>
                            in (Inr (),
                                w\<lparr>actions := (actions w)(a \<mapsto>
                                     \<lparr>act_name = key_name k @ ''Action'', keyframes = [(path, frame)]\<rparr>),
                                   meshes := (meshes w)(obj_data ob \<mapsto> me\<lparr>shape_keys := Some k'\<rparr>),
                                   next_id := next_id w + 1\<rparr>)
                        | Some a \<Rightarrow>
                            (case actions w a of
                               None \<Rightarrow> (Inl ReferenceError, w)
                             | Some ab \<Rightarrow>
                                 (Inr (),
                                  w\<lparr>actions := (actions w)(a \<mapsto>
                                       ab\<lparr>keyframes := keyframes ab @ [(path, frame)]\<rparr>)\<rparr>))))))"

fun bake_fcurves :: "oid \<Rightarrow> int \<Rightarrow> fcurve list \<Rightarrow> 'g world \<Rightarrow> (py_error + unit) \<times> 'g world" where
  "bake_fcurves obj frame [] w = (Inr (), w)"
| "bake_fcurves obj frame (fc # fcs) w =
     (case keyframe_insert obj (data_path fc) frame w of
        (Inl e, w') \<Rightarrow> (Inl e, w')
      | (Inr u, w') \<Rightarrow> bake_fcurves obj frame fcs w')"

fun bake_objects :: "int \<Rightarrow> oid list \<Rightarrow> 'g world \<Rightarrow> (py_error + unit) \<times> 'g world" where
  "bake_objects frame [] w = (Inr (), w)"
| "bake_objects frame (obj # rest) w =
     (case objects w obj of
        None \<Rightarrow> (Inl ReferenceError, w)
      | Some ob \<Rightarrow>
          (case meshes w (obj_data ob) of
             None \<Rightarrow> (Inl ReferenceError, w)
           | Some me \<Rightarrow>
               (case shape_keys me of
                  None \<Rightarrow> (Inl AttributeError, w)
                | Some k \<Rightarrow>
                    (case animation_data k of
                       None \<Rightarrow> (Inl AttributeError, w)
                     | Some ad \<Rightarrow>
                         (case bake_fcurves obj frame (drivers ad) w of
                            (Inl e, w') \<Rightarrow> (Inl e, w')
                          | (Inr u, w') \<Rightarrow> bake_objects frame rest w')))))"

fun bake_frames :: "oid list \<Rightarrow> int list \<Rightarrow> 'g world \<Rightarrow> (py_error + unit) \<times> 'g world" where
  "bake_frames objs [] w = (Inr (), w)"
| "bake_frames objs (frame # frames) w =
     (case bake_objects frame objs (w\<lparr>frame_current := frame\<rparr>) of
        (Inl e, w') \<Rightarrow> (Inl e, w')
      | (Inr u, w') \<Rightarrow> bake_frames objs frames w')"

definition bake_execute :: "'g world \<Rightarrow> (py_error + op_result) \<times> 'g world" where
  "bake_execute w =
     (if \<not> get_execute w then (Inr FINISHED, w)
      else
        let w1 = report ''INFO'' ''Baked keyframes'' w
        in (case filterE (is_mesh_with_sk w1) (selected w1) of
              Inl e \<Rightarrow> (Inl e, w1)
            | Inr objs \<Rightarrow>
                if length objs = 0 then
                  (Inr CANCELLED,
                   report ''ERROR''
                     ''No appropriate mesh selected. Please select at least 1 mesh with shape keys'' w1)
                else
                  (case BAKE_SHAPEKEY_ANIMATION_FRAME_START w1 of
                     None \<Rightarrow> (Inl TypeError, w1)
                   | Some a \<Rightarrow>
                       (case BAKE_SHAPEKEY_ANIMATION_FRAME_END w1 of
                          None \<Rightarrow> (Inl TypeError, w1)
                        | Some b \<Rightarrow>
                            (case bake_frames objs [a..b] w1 of
                               (Inl e, w2) \<Rightarrow> (Inl e, w2)
                             | (Inr u, w2) \<Rightarrow> (Inr FINISHED, set_execute False w2))))))"

section \<open>Object duplication\<close>

definition copy_one :: "oid \<Rightarrow> nat \<Rightarrow> real \<Rightarrow> 'g world \<Rightarrow> (py_error + oid) \<times> 'g world" where
  "copy_one obj i offset w =
     (case objects w obj of
        None \<Rightarrow> (Inl ReferenceError, w)
      | Some ob \<Rightarrow>
          (case meshes w (obj_data ob) of
             None \<Rightarrow> (Inl ReferenceError, w)
           | Some me \<Rightarrow>
               let c = next_id w;
                   m = next_id w + 1;
                   copy_obj = ob\<lparr>obj_data := m,
                                 obj_name := obj_name ob @ ''_shapekey_'' @ str_nat (i + 1),
                                 location_x := location_x ob + offset * real (i + 1)\<rparr>
               in (Inr c,
                   w\<lparr>objects := (objects w)(c \<mapsto> copy_obj),
                      meshes := (meshes w)(m \<mapsto> me),
                      next_id := next_id w + 2\<rparr>)))"

fun copy_loop ::
  "oid \<Rightarrow> real \<Rightarrow> nat list \<Rightarrow> oid list \<Rightarrow> 'g world \<Rightarrow> (py_error + oid list) \<times> 'g world" where
  "copy_loop obj offset [] acc w = (Inr acc, w)"
| "copy_loop obj offset (i # rest) acc w =
     (case copy_one obj i offset w of
        (Inl e, w') \<Rightarrow> (Inl e, w')
      | (Inr c, w') \<Rightarrow> copy_loop obj offset rest (acc @ [c]) w')"

definition copy_object :: "oid \<Rightarrow> nat \<Rightarrow> real \<Rightarrow> 'g world \<Rightarrow> (py_error + oid list) \<times> 'g world" where
  "copy_object obj ntimes offset w = copy_loop obj offset [0..<ntimes] [] w"

section \<open>Shape-key isolation\<close>

text \<open>\<open>len(obj.data.shape_keys.key_blocks)\<close>\<close>

definition shapekeys_len :: "oid \<Rightarrow> 'g world \<Rightarrow> py_error + nat" where
  "shapekeys_len obj w =
     (case objects w obj of
        None \<Rightarrow> Inl ReferenceError
      | Some ob \<Rightarrow>
          (case meshes w (obj_data ob) of
             None \<Rightarrow> Inl ReferenceError
           | Some me \<Rightarrow>
               (case shape_keys me of
                  None \<Rightarrow> Inl AttributeError
                | Some k \<Rightarrow> Inr (length (key_blocks k)))))"

text \<open>\<open>obj.data.shape_keys.key_blocks[i]\<close>\<close>

definition key_block_at :: "oid \<Rightarrow> nat \<Rightarrow> 'g world \<Rightarrow> py_error + 'g shape_key" where
  "key_block_at obj i w =
     (case objects w obj of
        None \<Rightarrow> Inl ReferenceError
      | Some ob \<Rightarrow>
          (case meshes w (obj_data ob) of
             None \<Rightarrow> Inl ReferenceError
           | Some me \<Rightarrow>
               (case shape_keys me of
                  None \<Rightarrow> Inl AttributeError
                | Some k \<Rightarrow>
                    if i < length (key_blocks k) then Inr (key_blocks k ! i)
                    else Inl IndexError)))"

text \<open>
  \<open>shapekeys[i]\<close> on the collection fetched at the start of \<open>apply_shapekey\<close>.
  The collection is a live view: it shows the keys the object has now. When the
  last key has been removed the view is empty, and a read by index raises
  \<open>IndexError\<close> like any read past the end.
\<close>

definition shapekeys_item :: "oid \<Rightarrow> nat \<Rightarrow> 'g world \<Rightarrow> py_error + 'g shape_key" where
  "shapekeys_item obj i w =
     (case objects w obj of
        None \<Rightarrow> Inl ReferenceError
      | Some ob \<Rightarrow>
          (case meshes w (obj_data ob) of
             None \<Rightarrow> Inl ReferenceError
           | Some me \<Rightarrow>
               (case shape_keys me of
                  None \<Rightarrow> Inl IndexError
                | Some k \<Rightarrow>
                    if i < length (key_blocks k) then Inr (key_blocks k ! i)
                    else Inl IndexError)))"

text \<open>
  Host primitive \<open>obj.shape_key_remove(key)\<close>, the key given by its index.
  Removing the reference key (index 0) while others remain makes the next key
  the reference and writes its shape into the mesh; removing the last key frees
  the container.
\<close>

definition shape_key_remove :: "oid \<Rightarrow> nat \<Rightarrow> 'g world \<Rightarrow> (py_error + unit) \<times> 'g world" where
  "shape_key_remove obj i w =
     (case objects w obj of
        None \<Rightarrow> (Inl ReferenceError, w)
      | Some ob \<Rightarrow>
          (case meshes w (obj_data ob) of
             None \<Rightarrow> (Inl ReferenceError, w)
           | Some me \<Rightarrow>
               (case shape_keys me of
                  None \<Rightarrow> (Inl RuntimeError, w)
                | Some k \<Rightarrow>
                    if length (key_blocks k) \<le> i then (Inl RuntimeError, w)
                    else
                      let kbs = take i (key_blocks k) @ drop (Suc i) (key_blocks k);
                          me' = (case kbs of
                                   [] \<Rightarrow> me\<lparr>shape_keys := None\<rparr>
                                 | b # bs \<Rightarrow>
                                     me\<lparr>geometry := (if i = 0 then sk_data b else geometry me),
                                        shape_keys := Some (k\<lparr>key_blocks := kbs\<rparr>)\<rparr>)
                      in (Inr (), w\<lparr>meshes := (meshes w)(obj_data ob \<mapsto> me')\<rparr>))))"

fun remove_others :: "oid \<Rightarrow> int \<Rightarrow> nat list \<Rightarrow> 'g world \<Rightarrow> (py_error + unit) \<times> 'g world" where
  "remove_others obj sk_keep [] w = (Inr (), w)"
| "remove_others obj sk_keep (i # rest) w =
     (if int i \<noteq> sk_keep then
        (case shapekeys_item obj i w of
           Inl e \<Rightarrow> (Inl e, w)
         | Inr kb \<Rightarrow>
             (case shape_key_remove obj i w of
                (Inl e, w') \<Rightarrow> (Inl e, w')
              | (Inr u, w') \<Rightarrow> remove_others obj sk_keep rest w'))
      else remove_others obj sk_keep rest w)"

definition apply_shapekey :: "oid \<Rightarrow> int \<Rightarrow> 'g world \<Rightarrow> (py_error + unit) \<times> 'g world" where
  "apply_shapekey obj sk_keep w =
     (case shapekeys_len obj w of
        Inl e \<Rightarrow> (Inl e, w)
      | Inr n \<Rightarrow>
          if sk_keep < 0 \<or> sk_keep > int n then (Inr (), w)
          else
            (case remove_others obj sk_keep (rev [0..<n]) w of
               (Inl e, w') \<Rightarrow> (Inl e, w')
             | (Inr u, w') \<Rightarrow>
                 (case shapekeys_item obj 0 w' of
                    Inl e \<Rightarrow> (Inl e, w')
                  | Inr kb \<Rightarrow> shape_key_remove obj 0 w')))"

section \<open>Modifier application\<close>

definition disable_control_edges :: "modifier \<Rightarrow> modifier" where
  "disable_control_edges m =
     (if mod_type m = ''SUBSURF'' then m\<lparr>show_only_control_edges := False\<rparr> else m)"

text \<open>The host finds a modifier of the active object by its name.\<close>

fun find_modifier :: "string \<Rightarrow> modifier list \<Rightarrow> modifier option" where
  "find_modifier nm [] = None"
| "find_modifier nm (m # ms) = (if mod_name m = nm then Some m else find_modifier nm ms)"

fun remove_named :: "string \<Rightarrow> modifier list \<Rightarrow> modifier list" where
  "remove_named nm [] = []"
| "remove_named nm (m # ms) = (if mod_name m = nm then ms else m # remove_named nm ms)"

text \<open>
  Host primitive \<open>bpy.ops.object.modifier_apply(modifier=name)\<close>. It works on
  the active object: the modifier of that name is baked into the mesh and leaves
  the stack, or the host raises and changes nothing.
\<close>

definition modifier_apply :: "'g host \<Rightarrow> string \<Rightarrow> 'g world \<Rightarrow> (py_error + unit) \<times> 'g world" where
  "modifier_apply h nm w =
     (case active w of
        None \<Rightarrow> (Inl RuntimeError, w)
      | Some a \<Rightarrow>
          (case objects w a of
             None \<Rightarrow> (Inl RuntimeError, w)
           | Some ob \<Rightarrow>
               (case find_modifier nm (modifiers ob) of
                  None \<Rightarrow> (Inl RuntimeError, w)
                | Some m \<Rightarrow>
                    (case meshes w (obj_data ob) of
                       None \<Rightarrow> (Inl RuntimeError, w\<lparr>events := events w @ [ApplyFailed a m]\<rparr>)
                     | Some me \<Rightarrow>
                         (case mod_apply h w a m of
                            None \<Rightarrow> (Inl RuntimeError, w\<lparr>events := events w @ [ApplyFailed a m]\<rparr>)
                          | Some g \<Rightarrow>
                              (Inr (),
                               w\<lparr>objects := (objects w)(a \<mapsto>
                                    ob\<lparr>modifiers := remove_named nm (modifiers ob)\<rparr>),
                                  meshes := (meshes w)(obj_data ob \<mapsto> me\<lparr>geometry := g\<rparr>),
                                  events := events w @ [ApplyOk a m]\<rparr>))))))"

text \<open>Host primitive \<open>bpy.ops.object.modifier_remove(modifier=name)\<close>.\<close>

definition modifier_remove :: "string \<Rightarrow> 'g world \<Rightarrow> (py_error + unit) \<times> 'g world" where
  "modifier_remove nm w =
     (case active w of
        None \<Rightarrow> (Inl RuntimeError, w)
      | Some a \<Rightarrow>
          (case objects w a of
             None \<Rightarrow> (Inl RuntimeError, w)
           | Some ob \<Rightarrow>
               (case find_modifier nm (modifiers ob) of
                  None \<Rightarrow> (Inl RuntimeError, w)
                | Some m \<Rightarrow>
                    (Inr (),
                     w\<lparr>objects := (objects w)(a \<mapsto>
                          ob\<lparr>modifiers := remove_named nm (modifiers ob)\<rparr>),
                        events := events w @ [ModRemoved a m]\<rparr>))))"

definition removed_msg :: "modifier \<Rightarrow> string \<Rightarrow> string" where
  "removed_msg m nm =
     ''Removed invalid modifier '' @ mod_name m @ '' ('' @ mod_type m @ '') from '' @ nm"

text \<open>
  The body of the second loop of \<open>apply_modifiers\<close> (lines 110 to 118): the
  bare \<open>except\<close> catches whatever the host raises, reports, and removes the
  modifier.
\<close>

definition apply_one :: "'g host \<Rightarrow> oid \<Rightarrow> modifier \<Rightarrow> 'g world \<Rightarrow> (py_error + unit) \<times> 'g world" where
  "apply_one h obj m w =
     (if mod_type m \<noteq> ''ARMATURE'' then
        (case modifier_apply h (mod_name m) w of
           (Inr u, w1) \<Rightarrow> (Inr (), w1)
         | (Inl e, w1) \<Rightarrow>
             (case objects w1 obj of
                None \<Rightarrow> (Inl ReferenceError, w1)
              | Some ob \<Rightarrow>
                  modifier_remove (mod_name m)
                    (report ''INFO'' (removed_msg m (obj_name ob)) w1)))
      else (Inr (), w))"

text \<open>
  The loop itself. The host's collection iterator walks the links of the stack,
  so the loop visits every modifier the stack held when it started, in stack
  order, also when the body takes the current one out.
\<close>

fun apply_loop :: "'g host \<Rightarrow> oid \<Rightarrow> modifier list \<Rightarrow> 'g world \<Rightarrow> (py_error + unit) \<times> 'g world" where
  "apply_loop h obj [] w = (Inr (), w)"
| "apply_loop h obj (m # ms) w =
     (case apply_one h obj m w of
        (Inl e, w') \<Rightarrow> (Inl e, w')
      | (Inr u, w') \<Rightarrow> apply_loop h obj ms w')"

definition apply_modifiers :: "'g host \<Rightarrow> oid \<Rightarrow> 'g world \<Rightarrow> (py_error + unit) \<times> 'g world" where
  "apply_modifiers h obj w =
     (case objects w obj of
        None \<Rightarrow> (Inl ReferenceError, w)
      | Some ob \<Rightarrow>
          let ms = map disable_control_edges (modifiers ob);
              w1 = w\<lparr>objects := (objects w)(obj \<mapsto> ob\<lparr>modifiers := ms\<rparr>)\<rparr>;
              w2 = w1\<lparr>selected := [obj], active := Some obj\<rparr>
          in apply_loop h obj ms w2)"

section \<open>Armature pose reset\<close>

definition reset_bone :: "bone \<Rightarrow> bone" where
  "reset_bone b =
     (let b1 = b\<lparr>location := (0, 0, 0)\<rparr>;
          b2 = b1\<lparr>rotation_quaternion := (1, 0, 0, 0)\<rparr>;
          b3 = b2\<lparr>rotation_euler := (0, 0, 0)\<rparr>;
          b4 = b3\<lparr>rotation_euler := (1, 1, 1)\<rparr>
      in b4)"

definition reset_pose :: "oid \<Rightarrow> 'g world \<Rightarrow> (py_error + unit) \<times> 'g world" where
  "reset_pose obj w =
     (case objects w obj of
        None \<Rightarrow> (Inl ReferenceError, w)
      | Some ob \<Rightarrow>
          (case pose_bones ob of
             None \<Rightarrow> (Inl AttributeError, w\<lparr>events := events w @ [PoseReset obj]\<rparr>)
           | Some bones \<Rightarrow>
               (Inr (),
                w\<lparr>objects := (objects w)(obj \<mapsto> ob\<lparr>pose_bones := Some (map reset_bone bones)\<rparr>),
                   events := events w @ [PoseReset obj]\<rparr>)))"

text \<open>
  What \<open>processed_armature\<close> can hold: references to host structs. Two
  references are equal when they point at the same struct, so a reference to an
  object never equals a reference to a modifier.
\<close>

datatype entity = ObjectRef oid | ModifierRef oid string

fun reset_armature_loop ::
  "oid list \<Rightarrow> entity list \<Rightarrow> 'g world \<Rightarrow> (py_error + entity list) \<times> 'g world" where
  "reset_armature_loop [] processed_armature w = (Inr processed_armature, w)"
| "reset_armature_loop (obj # rest) processed_armature w =
     (case objects w obj of
        None \<Rightarrow> (Inl ReferenceError, w)
      | Some ob \<Rightarrow>
          (case find (\<lambda>m. mod_type m = ''ARMATURE'' \<and> mod_object m \<noteq> None) (modifiers ob) of
             None \<Rightarrow> reset_armature_loop rest processed_armature w
           | Some armature \<Rightarrow>
               (case mod_object armature of
                  None \<Rightarrow> reset_armature_loop rest processed_armature w
                | Some a \<Rightarrow>
                    if ObjectRef a \<notin> set processed_armature then
                      (case reset_pose a w of
                         (Inl e, w') \<Rightarrow> (Inl e, w')
                       | (Inr u, w') \<Rightarrow>
                           reset_armature_loop rest
                             (processed_armature @ [ModifierRef obj (mod_name armature)]) w')
                    else reset_armature_loop rest processed_armature w)))"

definition reset_armature_pose :: "oid list \<Rightarrow> 'g world \<Rightarrow> (py_error + unit) \<times> 'g world" where
  "reset_armature_pose objs w =
     (case reset_armature_loop objs [] w of
        (Inl e, w') \<Rightarrow> (Inl e, w')
      | (Inr processed_armature, w') \<Rightarrow> (Inr (), w'))"

section \<open>Shape reassembly\<close>

text \<open>\<open>obj.select_set(True)\<close>\<close>

definition select_set_true :: "oid \<Rightarrow> 'g world \<Rightarrow> (py_error + unit) \<times> 'g world" where
  "select_set_true obj w =
     (case objects w obj of
        None \<Rightarrow> (Inl ReferenceError, w)
      | Some ob \<Rightarrow>
          (Inr (), w\<lparr>selected := (if obj \<in> set (selected w) then selected w
                                   else selected w @ [obj])\<rparr>))"

fun select_all :: "oid list \<Rightarrow> 'g world \<Rightarrow> (py_error + unit) \<times> 'g world" where
  "select_all [] w = (Inr (), w)"
| "select_all (obj # rest) w =
     (case select_set_true obj w of
        (Inl e, w') \<Rightarrow> (Inl e, w')
      | (Inr u, w') \<Rightarrow> select_all rest w')"

text \<open>The shape key the host creates: its metadata are the host's defaults.\<close>

definition new_shape_key :: "string \<Rightarrow> 'g \<Rightarrow> 'g shape_key" where
  "new_shape_key nm g =
     \<lparr>sk_name = nm, sk_mute = False, slider_min = 0, slider_max = 1, sk_value = 0,
      interpolation = ''KEY_LINEAR'', lock_shape = False, vertex_group = [], sk_data = g\<rparr>"

text \<open>
  Host primitive \<open>bpy.ops.object.join_shapes()\<close>. It works on the active
  object and the other selected mesh objects. Every selected mesh whose
  geometry fits the active object's becomes a new shape key at the end of the
  active object's key blocks, named after the source object; an active object
  without shape keys first gets a container with the reference key. Only
  geometry is transferred. When no selected mesh fits, the host warns, changes
  nothing and returns \<open>CANCELLED\<close>: it does not raise.
\<close>

definition fitting :: "'g host \<Rightarrow> 'g world \<Rightarrow> 'g \<Rightarrow> oid \<Rightarrow> (string \<times> 'g) option" where
  "fitting h w g src =
     (case objects w src of
        None \<Rightarrow> None
      | Some sob \<Rightarrow>
          if obj_type sob \<noteq> ''MESH'' then None
          else (case meshes w (obj_data sob) of
                  None \<Rightarrow> None
                | Some sme \<Rightarrow>
                    if join_ok h g (geometry sme) then Some (obj_name sob, geometry sme)
                    else None))"

fun add_keys :: "'g host \<Rightarrow> (string \<times> 'g) list \<Rightarrow> 'g shape_key list \<Rightarrow> 'g shape_key list" where
  "add_keys h [] kbs = kbs"
| "add_keys h ((nm, g) # rest) kbs =
     add_keys h rest (kbs @ [new_shape_key (unique_name h (map sk_name kbs) nm) g])"

definition join_shapes :: "'g host \<Rightarrow> 'g world \<Rightarrow> (py_error + op_result) \<times> 'g world" where
  "join_shapes h w =
     (case active w of
        None \<Rightarrow> (Inl RuntimeError, w)
      | Some dst \<Rightarrow>
          (case objects w dst of
             None \<Rightarrow> (Inl RuntimeError, w)
           | Some dob \<Rightarrow>
               (case meshes w (obj_data dob) of
                  None \<Rightarrow> (Inl RuntimeError, w)
                | Some dme \<Rightarrow>
                    let srcs = List.map_filter (fitting h w (geometry dme))
                                 (filter (\<lambda>s. s \<noteq> dst) (selected w))
                    in if srcs = [] then (Inr CANCELLED, w)
                       else
                         let k0 = (case shape_keys dme of
                                     None \<Rightarrow>
                                       \<lparr>key_name = ''Key'',
                                        key_blocks = [new_shape_key ''Basis'' (geometry dme)],
                                        animation_data = None\<rparr>
                                   | Some k \<Rightarrow> k);
                             k1 = k0\<lparr>key_blocks := add_keys h srcs (key_blocks k0)\<rparr>
                         in (Inr FINISHED,
                             w\<lparr>meshes := (meshes w)(obj_data dob \<mapsto>
                                  dme\<lparr>shape_keys := Some k1\<rparr>)\<rparr>))))"

text \<open>Lines 139 to 146. The result the host primitive returns is dropped.\<close>

definition add_objs_shapekeys ::
  "'g host \<Rightarrow> oid \<Rightarrow> oid list \<Rightarrow> 'g world \<Rightarrow> (py_error + unit) \<times> 'g world" where
  "add_objs_shapekeys h destination sources w =
     (case select_all sources (w\<lparr>selected := []\<rparr>) of
        (Inl e, w1) \<Rightarrow> (Inl e, w1)
      | (Inr u, w1) \<Rightarrow>
          (case join_shapes h (w1\<lparr>active := Some destination\<rparr>) of
             (Inl e, w2) \<Rightarrow> (Inl e, w2)
           | (Inr r, w2) \<Rightarrow> (Inr (), w2)))"

text \<open>
  The host's stores into a shape key. A name is made distinct from the names of
  the other keys of the container. The slider bounds and the value are kept
  within their ranges: \<open>slider_min\<close> between \<open>-10\<close> and the key's current
  \<open>slider_max - 0.001\<close>, \<open>slider_max\<close> between the key's current
  \<open>slider_min + 0.001\<close> and \<open>10\<close>, \<open>value\<close> between the key's current bounds.
  A stored number outside its range becomes the nearer end of the range. The
  other four fields are stored as given. The host's single-precision numbers are
  modelled as reals.
\<close>

definition clamp :: "real \<Rightarrow> real \<Rightarrow> real \<Rightarrow> real" where
  "clamp lo hi v = (if v < lo then lo else if hi < v then hi else v)"

definition set_sk_name :: "'g host \<Rightarrow> string list \<Rightarrow> string \<Rightarrow> 'g shape_key \<Rightarrow> 'g shape_key" where
  "set_sk_name h taken v sk = sk\<lparr>sk_name := unique_name h taken v\<rparr>"

definition set_slider_min :: "real \<Rightarrow> 'g shape_key \<Rightarrow> 'g shape_key" where
  "set_slider_min v sk = sk\<lparr>slider_min := clamp (- 10) (slider_max sk - 1 / 1000) v\<rparr>"

definition set_slider_max :: "real \<Rightarrow> 'g shape_key \<Rightarrow> 'g shape_key" where
  "set_slider_max v sk = sk\<lparr>slider_max := clamp (slider_min sk + 1 / 1000) 10 v\<rparr>"

definition set_sk_value :: "real \<Rightarrow> 'g shape_key \<Rightarrow> 'g shape_key" where
  "set_sk_value v sk = sk\<lparr>sk_value := clamp (slider_min sk) (slider_max sk) v\<rparr>"

text \<open>
  Lines 237 to 244: the eight assignments onto the receiver's key, in the order
  of the source; \<open>taken\<close> are the names of the receiver's other keys.
\<close>

definition restore_metadata ::
  "'g host \<Rightarrow> 'g shape_key \<Rightarrow> string list \<Rightarrow> 'g shape_key \<Rightarrow> 'g shape_key" where
  "restore_metadata h obj_sk taken sk =
     (let s1 = set_sk_name h taken (sk_name obj_sk) sk;
          s2 = s1\<lparr>sk_mute := sk_mute obj_sk\<rparr>;
          s3 = set_slider_min (slider_min obj_sk) s2;
          s4 = set_slider_max (slider_max obj_sk) s3;
          s5 = set_sk_value (sk_value obj_sk) s4;
          s6 = s5\<lparr>interpolation := interpolation obj_sk\<rparr>;
          s7 = s6\<lparr>lock_shape := lock_shape obj_sk\<rparr>;
          s8 = s7\<lparr>vertex_group := vertex_group obj_sk\<rparr>
      in s8)"

text \<open>
  \<open>sk = receiver.data.shape_keys.key_blocks[i]\<close> (line 236) followed by stores
  into \<open>sk\<close>: the key at index \<open>i\<close> is replaced by its update, which is given
  the names of the other keys. The read raises when the receiver has no
  container or no key at that index.
\<close>

definition update_key_block ::
  "oid \<Rightarrow> nat \<Rightarrow> (string list \<Rightarrow> 'g shape_key \<Rightarrow> 'g shape_key) \<Rightarrow> 'g world \<Rightarrow>
   (py_error + unit) \<times> 'g world" where
  "update_key_block obj i f w =
     (case objects w obj of
        None \<Rightarrow> (Inl ReferenceError, w)
      | Some ob \<Rightarrow>
          (case meshes w (obj_data ob) of
             None \<Rightarrow> (Inl ReferenceError, w)
           | Some me \<Rightarrow>
               (case shape_keys me of
                  None \<Rightarrow> (Inl AttributeError, w)
                | Some k \<Rightarrow>
                    if i < length (key_blocks k) then
                      let kbs = key_blocks k;
                          taken = map sk_name (take i kbs @ drop (Suc i) kbs)
                      in (Inr (),
                          w\<lparr>meshes := (meshes w)(obj_data ob \<mapsto>
                               me\<lparr>shape_keys := Some (k\<lparr>key_blocks := kbs[i := f taken (kbs ! i)]\<rparr>)\<rparr>)\<rparr>)
                    else (Inl IndexError, w))))"

text \<open>\<open>bpy.data.objects.remove(obj)\<close> and \<open>bpy.data.meshes.remove(mesh)\<close>\<close>

definition remove_object :: "oid \<Rightarrow> 'g world \<Rightarrow> 'g world" where
  "remove_object obj w =
     w\<lparr>objects := (objects w)(obj := None),
        selected := removeAll obj (selected w),
        active := (if active w = Some obj then None else active w)\<rparr>"

definition remove_mesh :: "mid \<Rightarrow> 'g world \<Rightarrow> 'g world" where
  "remove_mesh m w = w\<lparr>meshes := (meshes w)(m := None)\<rparr>"

text \<open>The body of the loop over the non-basis keys (lines 226 to 248).\<close>

definition donor_step ::
  "'g host \<Rightarrow> oid \<Rightarrow> oid \<Rightarrow> nat \<Rightarrow> 'g world \<Rightarrow> (py_error + unit) \<times> 'g world" where
  "donor_step h obj receiver i w =
     (case key_block_at obj i w of
        Inl e \<Rightarrow> (Inl e, w)
      | Inr obj_sk \<Rightarrow>
          (case copy_object obj 1 0 w of
             (Inl e, w1) \<Rightarrow> (Inl e, w1)
           | (Inr [], w1) \<Rightarrow> (Inl IndexError, w1)
           | (Inr (blendshape # cs), w1) \<Rightarrow>
               (case apply_shapekey blendshape (int i) w1 of
                  (Inl e, w2) \<Rightarrow> (Inl e, w2)
                | (Inr u, w2) \<Rightarrow>
                    (case apply_modifiers h blendshape w2 of
                       (Inl e, w3) \<Rightarrow> (Inl e, w3)
                     | (Inr u, w3) \<Rightarrow>
                         (case add_objs_shapekeys h receiver [blendshape] w3 of
                            (Inl e, w4) \<Rightarrow> (Inl e, w4)
                          | (Inr u, w4) \<Rightarrow>
                              (case update_key_block receiver i (restore_metadata h obj_sk) w4 of
                                 (Inl e, w5) \<Rightarrow> (Inl e, w5)
                               | (Inr u, w5) \<Rightarrow>
                                   (case objects w5 blendshape of
                                      None \<Rightarrow> (Inl ReferenceError, w5)
                                    | Some bob \<Rightarrow>
                                        (Inr (),
                                         remove_mesh (obj_data bob)
                                           (remove_object blendshape w5)))))))))"

fun donor_loop ::
  "'g host \<Rightarrow> oid \<Rightarrow> oid \<Rightarrow> nat list \<Rightarrow> 'g world \<Rightarrow> (py_error + unit) \<times> 'g world" where
  "donor_loop h obj receiver [] w = (Inr (), w)"
| "donor_loop h obj receiver (i # rest) w =
     (case donor_step h obj receiver i w of
        (Inl e, w') \<Rightarrow> (Inl e, w')
      | (Inr u, w') \<Rightarrow> donor_loop h obj receiver rest w')"

section \<open>Animation transfer\<close>

text \<open>
  A new variable takes the original's name and type; its targets are the ones
  the host gives a variable of that type, as many as the original has, and the
  five copied fields are all a target holds here.
\<close>

definition copy_target :: "target \<Rightarrow> target" where
  "copy_target t =
     \<lparr>tgt_id = tgt_id t, tgt_data_path = tgt_data_path t, bone_target = bone_target t,
      transform_space = transform_space t, transform_type = transform_type t\<rparr>"

definition copy_variable :: "variable \<Rightarrow> variable" where
  "copy_variable v =
     \<lparr>var_name = var_name v, var_type = var_type v, targets = map copy_target (targets v)\<rparr>"

definition copy_driver :: "fcurve \<Rightarrow> fcurve" where
  "copy_driver d =
     \<lparr>data_path = data_path d, fc_mute = fc_mute d, driver_type = driver_type d,
      expression = expression d, use_self = use_self d,
      variables = map copy_variable (variables d)\<rparr>"

text \<open>\<open>int(x)\<close> of a float truncates towards zero.\<close>

definition py_int :: "real \<Rightarrow> int" where
  "py_int x = (if 0 \<le> x then \<lfloor>x\<rfloor> else \<lceil>x\<rceil>)"

text \<open>
  \<open>strips.new(name, start, action)\<close>: the strip the host creates; what the
  call does not give is the host's default.
\<close>

definition new_strip :: "string \<Rightarrow> int \<Rightarrow> aid option \<Rightarrow> strip" where
  "new_strip nm start act =
     \<lparr>strip_name = nm, strip_frame_start = of_int start, strip_action = act, blend_in = 0,
      blend_out = 0, use_auto_blend = False, extrapolation = ''HOLD''\<rparr>"

text \<open>
  The host's store into \<open>use_auto_blend\<close> also sets both blend lengths:
  switched off it resets them to zero, switched on it computes them anew.
\<close>

definition set_use_auto_blend :: "'g host \<Rightarrow> 'g world \<Rightarrow> bool \<Rightarrow> strip \<Rightarrow> strip" where
  "set_use_auto_blend h w v st =
     (if v then
        st\<lparr>use_auto_blend := True, blend_in := fst (auto_blend h w st),
           blend_out := snd (auto_blend h w st)\<rparr>
      else st\<lparr>use_auto_blend := False, blend_in := 0, blend_out := 0\<rparr>)"

text \<open>
  Lines 296 to 304. The blend lengths stored at lines 301 and 302 do not
  survive line 303.
\<close>

definition copy_strip :: "'g host \<Rightarrow> 'g world \<Rightarrow> strip \<Rightarrow> strip" where
  "copy_strip h w st =
     (let s0 = new_strip (strip_name st) (py_int (strip_frame_start st)) (strip_action st);
          s1 = s0\<lparr>blend_in := blend_in st\<rparr>;
          s2 = s1\<lparr>blend_out := blend_out st\<rparr>;
          s3 = set_use_auto_blend h w (use_auto_blend st) s2;
          s4 = s3\<lparr>extrapolation := extrapolation st\<rparr>
      in s4)"

definition copy_track :: "'g host \<Rightarrow> 'g world \<Rightarrow> track \<Rightarrow> track" where
  "copy_track h w t =
     \<lparr>track_name = track_name t, is_solo = is_solo t, track_mute = track_mute t,
      strips = map (copy_strip h w) (strips t)\<rparr>"

text \<open>\<open>obj.data.shape_keys.key_blocks[0].id_data\<close>: the container itself.\<close>

definition skid_of :: "oid \<Rightarrow> 'g world \<Rightarrow> py_error + 'g key" where
  "skid_of obj w =
     (case objects w obj of
        None \<Rightarrow> Inl ReferenceError
      | Some ob \<Rightarrow>
          (case meshes w (obj_data ob) of
             None \<Rightarrow> Inl ReferenceError
           | Some me \<Rightarrow>
               (case shape_keys me of
                  None \<Rightarrow> Inl AttributeError
                | Some k \<Rightarrow> if key_blocks k = [] then Inl IndexError else Inr k)))"

definition set_skid :: "oid \<Rightarrow> 'g key \<Rightarrow> 'g world \<Rightarrow> 'g world" where
  "set_skid obj k w =
     (case objects w obj of
        None \<Rightarrow> w
      | Some ob \<Rightarrow>
          (case meshes w (obj_data ob) of
             None \<Rightarrow> w
           | Some me \<Rightarrow> w\<lparr>meshes := (meshes w)(obj_data ob \<mapsto> me\<lparr>shape_keys := Some k\<rparr>)\<rparr>))"

definition anim_of :: "'g key \<Rightarrow> anim_data" where
  "anim_of k = (case animation_data k of None \<Rightarrow> empty_anim | Some ad \<Rightarrow> ad)"

text \<open>
  Lines 260 and 261: when the original has an action, the receiver gets a copy
  of it, a new action datablock; otherwise the receiver's action stays.
\<close>

definition copy_action ::
  "aid option \<Rightarrow> aid option \<Rightarrow> 'g world \<Rightarrow> (py_error + aid option) \<times> 'g world" where
  "copy_action src_action dst_action w =
     (case src_action of
        None \<Rightarrow> (Inr dst_action, w)
      | Some a \<Rightarrow>
          (case actions w a of
             None \<Rightarrow> (Inl ReferenceError, w)
           | Some ab \<Rightarrow>
               (Inr (Some (next_id w)),
                w\<lparr>actions := (actions w)(next_id w \<mapsto> ab), next_id := next_id w + 1\<rparr>)))"

text \<open>
  Lines 254 to 306: both containers are fetched, both get animation data if they
  have none, then the action, the drivers and the NLA tracks of the original
  are copied onto the receiver's container.
\<close>

definition transfer_animation ::
  "'g host \<Rightarrow> oid \<Rightarrow> oid \<Rightarrow> 'g world \<Rightarrow> (py_error + unit) \<times> 'g world" where
  "transfer_animation h obj receiver w =
     (case skid_of obj w of
        Inl e \<Rightarrow> (Inl e, w)
      | Inr obj_skid0 \<Rightarrow>
          (case skid_of receiver w of
             Inl e \<Rightarrow> (Inl e, w)
           | Inr skid00 \<Rightarrow>
               let obj_skid = animation_data_create obj_skid0;
                   w1 = set_skid obj obj_skid w
               in (case skid_of receiver w1 of
                     Inl e \<Rightarrow> (Inl e, w1)
                   | Inr skid0 \<Rightarrow>
                       let skid = animation_data_create skid0;
                           w2 = set_skid receiver skid w1;
                           src = anim_of obj_skid;
                           dst = anim_of skid
                       in (case copy_action (action src) (action dst) w2 of
                             (Inl e, w3) \<Rightarrow> (Inl e, w3)
                           | (Inr act, w3) \<Rightarrow>
                               (Inr (),
                                set_skid receiver
                                  (skid\<lparr>animation_data := Some
                                     \<lparr>action = act,
                                      drivers = drivers dst @ map copy_driver (drivers src),
                                      nla_tracks = nla_tracks dst @ map (copy_track h w3) (nla_tracks src)\<rparr>\<rparr>)
                                  w3)))))"

section \<open>Apply Modifiers\<close>

text \<open>
  Lines 220 to 223: the receiver is a copy of the object, collapsed to its basis
  shape and baked.
\<close>

definition make_receiver :: "'g host \<Rightarrow> oid \<Rightarrow> 'g world \<Rightarrow> (py_error + oid) \<times> 'g world" where
  "make_receiver h obj w =
     (case copy_object obj 1 0 w of
        (Inl e, w1) \<Rightarrow> (Inl e, w1)
      | (Inr [], w1) \<Rightarrow> (Inl IndexError, w1)
      | (Inr (receiver # cs), w1) \<Rightarrow>
          (case objects w1 receiver of
             None \<Rightarrow> (Inl ReferenceError, w1)
           | Some rob \<Rightarrow>
               let w2 = w1\<lparr>objects := (objects w1)(receiver \<mapsto>
                             rob\<lparr>obj_name := ''sk_receiver''\<rparr>)\<rparr>
               in (case apply_shapekey receiver 0 w2 of
                     (Inl e, w3) \<Rightarrow> (Inl e, w3)
                   | (Inr u, w3) \<Rightarrow>
                       (case apply_modifiers h receiver w3 of
                          (Inl e, w4) \<Rightarrow> (Inl e, w4)
                        | (Inr u, w4) \<Rightarrow> (Inr receiver, w4)))))"

text \<open>
  Lines 309 to 317: the original and its mesh are deleted, then the receiver's
  container and the receiver take the names kept for them.
\<close>

definition replace_original ::
  "oid \<Rightarrow> oid \<Rightarrow> string \<Rightarrow> 'g world \<Rightarrow> (py_error + unit) \<times> 'g world" where
  "replace_original obj receiver skid_name w =
     (case objects w obj of
        None \<Rightarrow> (Inl ReferenceError, w)
      | Some ob \<Rightarrow>
          let w1 = remove_mesh (obj_data ob) (remove_object obj w)
          in (case skid_of receiver w1 of
                Inl e \<Rightarrow> (Inl e, w1)
              | Inr skid \<Rightarrow>
                  let w2 = set_skid receiver (skid\<lparr>key_name := skid_name\<rparr>) w1
                  in (case objects w2 receiver of
                        None \<Rightarrow> (Inl ReferenceError, w2)
                      | Some rob \<Rightarrow>
                          (Inr (),
                           w2\<lparr>objects := (objects w2)(receiver \<mapsto>
                                rob\<lparr>obj_name := obj_name ob\<rparr>)\<rparr>))))"

text \<open>The body of the loop of \<open>apply_all_modifiers_with_sk\<close> for one object.\<close>

definition with_sk_object :: "'g host \<Rightarrow> oid \<Rightarrow> 'g world \<Rightarrow> (py_error + unit) \<times> 'g world" where
  "with_sk_object h obj w =
     (case objects w obj of
        None \<Rightarrow> (Inl ReferenceError, w)
      | Some ob \<Rightarrow>
          (case meshes w (obj_data ob) of
             None \<Rightarrow> (Inl ReferenceError, w)
           | Some me \<Rightarrow>
               (case shape_keys me of
                  None \<Rightarrow> apply_modifiers h obj w
                | Some k \<Rightarrow>
                    (case make_receiver h obj w of
                       (Inl e, w1) \<Rightarrow> (Inl e, w1)
                     | (Inr receiver, w1) \<Rightarrow>
                         (case shapekeys_len obj w1 of
                            Inl e \<Rightarrow> (Inl e, w1)
                          | Inr n \<Rightarrow>
                              (case donor_loop h obj receiver [1..<n] w1 of
                                 (Inl e, w2) \<Rightarrow> (Inl e, w2)
                               | (Inr u, w2) \<Rightarrow>
                                   (case objects w2 obj of
                                      None \<Rightarrow> (Inl ReferenceError, w2)
                                    | Some ob2 \<Rightarrow>
                                        (case transfer_animation h obj receiver w2 of
                                           (Inl e, w3) \<Rightarrow> (Inl e, w3)
                                         | (Inr u, w3) \<Rightarrow>
                                             replace_original obj receiver
                                               (obj_name ob2 @ ''.SK'') w3))))))))"

fun apply_all_modifiers_with_sk ::
  "'g host \<Rightarrow> oid list \<Rightarrow> 'g world \<Rightarrow> (py_error + unit) \<times> 'g world" where
  "apply_all_modifiers_with_sk h [] w = (Inr (), w)"
| "apply_all_modifiers_with_sk h (obj # rest) w =
     (case with_sk_object h obj w of
        (Inl e, w') \<Rightarrow> (Inl e, w')
      | (Inr u, w') \<Rightarrow> apply_all_modifiers_with_sk h rest w')"

fun apply_all_loop ::
  "'g host \<Rightarrow> oid list \<Rightarrow> oid list \<Rightarrow> 'g world \<Rightarrow> (py_error + oid list) \<times> 'g world" where
  "apply_all_loop h [] next_selection w = (Inr next_selection, w)"
| "apply_all_loop h (obj # rest) next_selection w =
     (case objects w obj of
        None \<Rightarrow> (Inl ReferenceError, w)
      | Some ob \<Rightarrow>
          (case meshes w (obj_data ob) of
             None \<Rightarrow> (Inl ReferenceError, w)
           | Some me \<Rightarrow>
               if shape_keys me \<noteq> None then apply_all_loop h rest (next_selection @ [obj]) w
               else
                 (case apply_modifiers h obj w of
                    (Inl e, w') \<Rightarrow> (Inl e, w')
                  | (Inr u, w') \<Rightarrow> apply_all_loop h rest next_selection w')))"

definition apply_all_modifiers ::
  "'g host \<Rightarrow> oid list \<Rightarrow> 'g world \<Rightarrow> (py_error + op_result) \<times> 'g world" where
  "apply_all_modifiers h objs w =
     (case apply_all_loop h objs [] w of
        (Inl e, w1) \<Rightarrow> (Inl e, w1)
      | (Inr next_selection, w1) \<Rightarrow>
          (case select_all next_selection (w1\<lparr>selected := []\<rparr>) of
             (Inl e, w2) \<Rightarrow> (Inl e, w2)
           | (Inr u, w2) \<Rightarrow> (Inr FINISHED, w2)))"

definition apply_mods_execute ::
  "'g host \<Rightarrow> apply_action \<Rightarrow> bool \<Rightarrow> 'g world \<Rightarrow> (py_error + op_result) \<times> 'g world" where
  "apply_mods_execute h act do_reset_pose w =
     (case filterE (is_mesh w) (selected w) of
        Inl e \<Rightarrow> (Inl e, w)
      | Inr objs \<Rightarrow>
          if length objs = 0 then
            (Inr CANCELLED,
             report ''ERROR'' ''No Active object. Please select at least 1 mesh object'' w)
          else
            (case (if do_reset_pose then reset_armature_pose objs w else (Inr (), w)) of
               (Inl e, w1) \<Rightarrow> (Inl e, w1)
             | (Inr u, w1) \<Rightarrow>
                 (case act of
                    ALL_MODIFIERS \<Rightarrow>
                      (case apply_all_modifiers h objs w1 of
                         (Inl e, w2) \<Rightarrow> (Inl e, w2)
                       | (Inr r, w2) \<Rightarrow> (Inr FINISHED, w2))
                  | ALL_MODIFIERS_WITH_SHAPEKEYS \<Rightarrow>
                      (case apply_all_modifiers_with_sk h objs w1 of
                         (Inl e, w2) \<Rightarrow> (Inl e, w2)
                       | (Inr u, w2) \<Rightarrow> (Inr FINISHED, w2)))))"

section \<open>Auxiliary notions\<close>

text \<open>
  What one pass of the toggle loop does to a mesh, and which meshes a run
  visits: the data of every eligible selected object, once per object, so a
  mesh shared by two selected objects is visited twice.
\<close>

definition toggle_mesh :: "toggle_action \<Rightarrow> 'g mesh \<Rightarrow> 'g mesh" where
  "toggle_mesh act me = me\<lparr>shape_keys := map_option (toggle_key act) (shape_keys me)\<rparr>"

definition toggle_at :: "toggle_action \<Rightarrow> mid \<Rightarrow> (mid \<Rightarrow> 'g mesh option) \<Rightarrow> (mid \<Rightarrow> 'g mesh option)" where
  "toggle_at act m ms = (case ms m of None \<Rightarrow> ms | Some me \<Rightarrow> ms(m \<mapsto> toggle_mesh act me))"

definition data_of :: "'g world \<Rightarrow> oid \<Rightarrow> mid" where
  "data_of w i = (case objects w i of None \<Rightarrow> 0 | Some ob \<Rightarrow> obj_data ob)"

definition toggled_meshes :: "'g world \<Rightarrow> mid list" where
  "toggled_meshes w =
     (case filterE (is_mesh_with_sk w) (selected w) of
        Inl e \<Rightarrow> []
      | Inr objs \<Rightarrow> map (data_of w) objs)"

definition mesh_drivers :: "'g mesh option \<Rightarrow> fcurve list" where
  "mesh_drivers mo =
     (case mo of
        None \<Rightarrow> []
      | Some me \<Rightarrow> (case shape_keys me of None \<Rightarrow> [] | Some k \<Rightarrow> key_drivers k))"

text \<open>
  The host only lists live objects as selected, and a live mesh object has a
  live mesh.
\<close>

definition live_selection :: "'g world \<Rightarrow> bool" where
  "live_selection w =
     (\<forall>j\<in>set (selected w).
        case objects w j of
          None \<Rightarrow> False
        | Some ob \<Rightarrow> obj_type ob = ''MESH'' \<longrightarrow> meshes w (obj_data ob) \<noteq> None)"












text \<open>
  The key blocks an object shows, and the eight metadata fields of a key that the
  reassembly stores.
\<close>

definition keys_of :: "'g world \<Rightarrow> oid \<Rightarrow> 'g shape_key list" where
  "keys_of w i =
     (case objects w i of
        None \<Rightarrow> []
      | Some ob \<Rightarrow>
          (case meshes w (obj_data ob) of
             None \<Rightarrow> []
           | Some me \<Rightarrow> (case shape_keys me of None \<Rightarrow> [] | Some k \<Rightarrow> key_blocks k)))"

definition sk_meta ::
  "'g shape_key \<Rightarrow> string \<times> bool \<times> real \<times> real \<times> real \<times> string \<times> bool \<times> string" where
  "sk_meta sk =
     (sk_name sk, sk_mute sk, slider_min sk, slider_max sk, sk_value sk, interpolation sk,
      lock_shape sk, vertex_group sk)"

text \<open>
  A key whose slider range is one the host accepts and whose value lies within
  it. What the eight stores are sure to bring over from an original key: the
  four fields the host stores as given, and for an original with such a range
  and value also its upper bound and its value, while the lower bound never
  comes out higher than the original's. Nothing is said of the name.
\<close>

definition sk_wf :: "'g shape_key \<Rightarrow> bool" where
  "sk_wf sk \<longleftrightarrow>
     - 10 \<le> slider_min sk \<and> slider_min sk + 1 / 1000 \<le> slider_max sk \<and> slider_max sk \<le> 10 \<and>
     slider_min sk \<le> sk_value sk \<and> sk_value sk \<le> slider_max sk"

definition restored :: "'g shape_key \<Rightarrow> 'g shape_key \<Rightarrow> bool" where
  "restored orig sk \<longleftrightarrow>
     sk_mute sk = sk_mute orig \<and> interpolation sk = interpolation orig \<and>
     lock_shape sk = lock_shape orig \<and> vertex_group sk = vertex_group orig \<and>
     (sk_wf orig \<longrightarrow>
        slider_max sk = slider_max orig \<and> sk_value sk = sk_value orig \<and>
        slider_min sk \<le> slider_min orig)"

text \<open>
  Frames: a step that touches one mesh datablock only, and a step that touches
  one object (which keeps its mesh) and one mesh datablock only.
\<close>

definition only_mesh :: "mid \<Rightarrow> 'g world \<Rightarrow> 'g world \<Rightarrow> bool" where
  "only_mesh m w w' \<longleftrightarrow>
     objects w' = objects w \<and> next_id w' = next_id w \<and>
     (\<forall>k. k \<noteq> m \<longrightarrow> meshes w' k = meshes w k)"

definition only_object :: "oid \<Rightarrow> mid \<Rightarrow> 'g world \<Rightarrow> 'g world \<Rightarrow> bool" where
  "only_object c m w w' \<longleftrightarrow>
     (\<forall>j. j \<noteq> c \<longrightarrow> objects w' j = objects w j) \<and>
     map_option obj_data (objects w' c) = map_option obj_data (objects w c) \<and>
     next_id w' = next_id w \<and>
     (\<forall>k. k \<noteq> m \<longrightarrow> meshes w' k = meshes w k)"

text \<open>
  What the reassembly loop relies on and keeps: the original and the receiver
  are two live objects with two different meshes, all four older than the next
  identity the host hands out.
\<close>

definition sk_inv :: "oid \<Rightarrow> object \<Rightarrow> oid \<Rightarrow> object \<Rightarrow> 'g world \<Rightarrow> bool" where
  "sk_inv obj ob r rob w \<longleftrightarrow>
     objects w obj = Some ob \<and> objects w r = Some rob \<and> obj \<noteq> r \<and>
     obj_data ob \<noteq> obj_data rob \<and> obj < next_id w \<and> r < next_id w \<and>
     obj_data ob < next_id w \<and> obj_data rob < next_id w"

text \<open>
  A batch as the host hands it over: the objects are distinct and live, no two
  of them share a mesh, and their identities and their meshes' are older than
  the next identity the host hands out.
\<close>

definition batch_fresh :: "'g world \<Rightarrow> oid list \<Rightarrow> bool" where
  "batch_fresh w objs \<longleftrightarrow>
     distinct objs \<and> distinct (map (data_of w) objs) \<and>
     (\<forall>i\<in>set objs. objects w i \<noteq> None \<and> i < next_id w \<and> data_of w i < next_id w)"

text \<open>
  What the reassembly achieves for one source object: if it had shape keys, a
  new object carries its name, and every non-basis key of the original has, at
  the same index of the new object, a key restored from it.
\<close>

definition received :: "'g world \<Rightarrow> 'g world \<Rightarrow> oid \<Rightarrow> bool" where
  "received w w' obj \<longleftrightarrow>
     (\<forall>ob me k. objects w obj = Some ob \<longrightarrow> meshes w (obj_data ob) = Some me \<longrightarrow>
        shape_keys me = Some k \<longrightarrow>
        (\<exists>rid rob. next_id w \<le> rid \<and> objects w' rid = Some rob \<and>
           obj_name rob = obj_name ob \<and>
           (\<forall>i. 0 < i \<longrightarrow> i < length (key_blocks k) \<longrightarrow>
              i < length (keys_of w' rid) \<and>
              restored (key_blocks k ! i) (keys_of w' rid ! i))))"

text \<open>The selected mesh objects, and a step that changes poses only.\<close>

definition mesh_selection :: "'g world \<Rightarrow> oid list" where
  "mesh_selection w = filter (\<lambda>i. is_mesh w i = Inr True) (selected w)"

definition pose_only :: "'g world \<Rightarrow> 'g world \<Rightarrow> bool" where
  "pose_only w w' \<longleftrightarrow>
     meshes w' = meshes w \<and> next_id w' = next_id w \<and>
     (\<forall>j. map_option obj_name (objects w' j) = map_option obj_name (objects w j) \<and>
          map_option obj_data (objects w' j) = map_option obj_data (objects w j))"

section \<open>Example scenes\<close>

definition ex_obj :: "string \<Rightarrow> mid \<Rightarrow> modifier list \<Rightarrow> object" where
  "ex_obj nm m ms =
     \<lparr>obj_name = nm, obj_type = ''MESH'', obj_data = m, modifiers = ms, location_x = 0,
      pose_bones = None\<rparr>"

definition ex_driver :: fcurve where
  "ex_driver =
     \<lparr>data_path = ''key_blocks[1].value'', fc_mute = False, driver_type = ''SCRIPTED'',
      expression = ''var'', use_self = False, variables = []\<rparr>"

definition ex_key :: "anim_data option \<Rightarrow> int list key" where
  "ex_key ad =
     \<lparr>key_name = ''Key'',
      key_blocks = [new_shape_key ''Basis'' [0, 0], (new_shape_key ''Smile'' [0, 1])\<lparr>sk_value := 1/2\<rparr>],
      animation_data = ad\<rparr>"

definition blank_world :: "int list world" where
  "blank_world =
     \<lparr>objects = (\<lambda>i. None), meshes = (\<lambda>i. None), actions = (\<lambda>i. None), selected = [],
      active = None, next_id = 100, scene_frame_start = 1, scene_frame_end = 250,
      frame_current = 1, BAKE_SHAPEKEY_ANIMATION_FRAME_START = None,
      BAKE_SHAPEKEY_ANIMATION_FRAME_END = None, BAKE_SHAPEKEY_ANIMATION_EXECUTE = False,
      reports = [], events = []\<rparr>"

definition driver_world :: "int list world" where
  "driver_world =
     blank_world
       \<lparr>objects := [1 \<mapsto> ex_obj ''Face'' 11 [], 2 \<mapsto> ex_obj ''Body'' 12 []],
        meshes := [11 \<mapsto> \<lparr>geometry = [0, 0], shape_keys = Some (ex_key None)\<rparr>,
                   12 \<mapsto> \<lparr>geometry = [0, 0],
                            shape_keys = Some (ex_key (Some (empty_anim\<lparr>drivers := [ex_driver]\<rparr>)))\<rparr>],
        selected := [1, 2]\<rparr>"

definition ex_bone :: bone where
  "ex_bone =
     \<lparr>location = (1, 2, 3), rotation_quaternion = (0, 1, 0, 0), rotation_euler = (0, 0, 2)\<rparr>"

definition ex_arm_mod :: "oid \<Rightarrow> modifier" where
  "ex_arm_mod a =
     \<lparr>mod_name = ''Armature'', mod_type = ''ARMATURE'', show_only_control_edges = False,
      mod_object = Some a\<rparr>"

definition ex_rig :: object where
  "ex_rig =
     \<lparr>obj_name = ''Rig'', obj_type = ''ARMATURE'', obj_data = 0, modifiers = [], location_x = 0,
      pose_bones = Some [ex_bone]\<rparr>"

text \<open>
  A host for the examples. Geometry is a list of vertex heights. A subdivision
  modifier doubles every height; a weld modifier merges all vertices into the
  first, and the host refuses it unless they are all at one height; any other
  modifier raises every height by one. The host refuses a modifier of type
  \<open>BROKEN\<close> and any modifier on a mesh that still has shape keys. Two
  geometries join when they have as many vertices. A name that is taken gets
  the first free numbered suffix \<open>.001\<close>, \<open>.002\<close> and so on. Automatic
  blending finds nothing to blend with.
\<close>

definition pad3 :: "nat \<Rightarrow> string" where
  "pad3 n =
     (if n < 10 then ''00'' @ str_nat n else if n < 100 then ''0'' @ str_nat n else str_nat n)"

definition first_free :: "string list \<Rightarrow> string \<Rightarrow> string" where
  "first_free taken v =
     (if v \<notin> set taken then v
      else (case find (\<lambda>n. v @ ''.'' @ pad3 n \<notin> set taken) [1..<length taken + 2] of
              None \<Rightarrow> v
            | Some n \<Rightarrow> v @ ''.'' @ pad3 n))"

definition ex_host :: "int list host" where
  "ex_host =
     \<lparr>mod_apply = (\<lambda>w a m.
        if mod_type m = ''BROKEN'' then None
        else (case objects w a of
                None \<Rightarrow> None
              | Some ob \<Rightarrow>
                  (case meshes w (obj_data ob) of
                     None \<Rightarrow> None
                   | Some me \<Rightarrow>
                       if shape_keys me \<noteq> None then None
                       else if mod_type m = ''SUBSURF'' then Some (map (\<lambda>v. 2 * v) (geometry me))
                       else if mod_type m = ''WELD'' then
                         (if list_all (\<lambda>v. v = hd (geometry me)) (geometry me)
                          then Some (take 1 (geometry me)) else None)
                       else Some (map (\<lambda>v. v + 1) (geometry me))))),
      join_ok = (\<lambda>a b. length a = length b),
      unique_name = first_free,
      auto_blend = (\<lambda>w st. (0, 0))\<rparr>"

text \<open>Two selected meshes, each bound to the same armature, object 7.\<close>

definition shared_rig_world :: "int list world" where
  "shared_rig_world =
     blank_world
       \<lparr>objects := [1 \<mapsto> ex_obj ''Body'' 11 [ex_arm_mod 7],
                    2 \<mapsto> ex_obj ''Hair'' 12 [ex_arm_mod 7],
                    7 \<mapsto> ex_rig],
        meshes := [11 \<mapsto> \<lparr>geometry = [0, 0], shape_keys = None\<rparr>,
                   12 \<mapsto> \<lparr>geometry = [0, 0], shape_keys = None\<rparr>],
        selected := [1, 2]\<rparr>"

text \<open>A selection without a mesh: only the armature is selected.\<close>

definition rig_only_world :: "int list world" where
  "rig_only_world = shared_rig_world\<lparr>selected := [7]\<rparr>"

text \<open>A mesh with a stack of four modifiers, one of which the host refuses.\<close>

definition ex_subsurf :: modifier where
  "ex_subsurf =
     \<lparr>mod_name = ''Subdivision'', mod_type = ''SUBSURF'', show_only_control_edges = True,
      mod_object = None\<rparr>"

definition ex_broken :: modifier where
  "ex_broken =
     \<lparr>mod_name = ''Bad'', mod_type = ''BROKEN'', show_only_control_edges = False,
      mod_object = None\<rparr>"

definition ex_displace :: modifier where
  "ex_displace =
     \<lparr>mod_name = ''Displace'', mod_type = ''DISPLACE'', show_only_control_edges = False,
      mod_object = None\<rparr>"

definition stack_world :: "int list world" where
  "stack_world =
     blank_world
       \<lparr>objects := [3 \<mapsto> ex_obj ''Cube'' 13 [ex_subsurf, ex_broken, ex_arm_mod 7, ex_displace],
                    7 \<mapsto> ex_rig],
        meshes := [13 \<mapsto> \<lparr>geometry = [1, 2], shape_keys = None\<rparr>],
        selected := [3]\<rparr>"


text \<open>
  A mesh with three shape keys, a driver on its container, and a stack of a
  subdivision, an armature and a displacement modifier.
\<close>

definition ex_smile :: "int list shape_key" where
  "ex_smile =
     \<lparr>sk_name = ''Smile'', sk_mute = True, slider_min = -1, slider_max = 2, sk_value = 1/2,
      interpolation = ''KEY_CARDINAL'', lock_shape = True, vertex_group = ''face'',
      sk_data = [0, 5]\<rparr>"

definition ex_frown :: "int list shape_key" where
  "ex_frown =
     \<lparr>sk_name = ''Frown'', sk_mute = False, slider_min = 0, slider_max = 1, sk_value = 1,
      interpolation = ''KEY_LINEAR'', lock_shape = False, vertex_group = [],
      sk_data = [3, 0]\<rparr>"

definition face_world :: "int list world" where
  "face_world =
     blank_world
       \<lparr>objects := [1 \<mapsto> ex_obj ''Face'' 11 [ex_subsurf, ex_arm_mod 7, ex_displace], 7 \<mapsto> ex_rig],
        meshes := [11 \<mapsto> \<lparr>geometry = [0, 0],
                    shape_keys = Some \<lparr>key_name = ''Key'',
                       key_blocks = [new_shape_key ''Basis'' [0, 0], ex_smile, ex_frown],
                       animation_data = Some (empty_anim\<lparr>drivers := [ex_driver]\<rparr>)\<rparr>\<rparr>],
        selected := [1]\<rparr>"



text \<open>
  A mesh with two shape keys; the slider range of the second key, from 2 to 5,
  lies above the range from 0 to 1 that a new key starts with.
\<close>

definition ex_loud :: "int list shape_key" where
  "ex_loud =
     \<lparr>sk_name = ''Loud'', sk_mute = True, slider_min = 2, slider_max = 5, sk_value = 3,
      interpolation = ''KEY_CARDINAL'', lock_shape = True, vertex_group = ''face'',
      sk_data = [0, 5]\<rparr>"

definition loud_world :: "int list world" where
  "loud_world =
     blank_world
       \<lparr>objects := [1 \<mapsto> ex_obj ''Face'' 11 [ex_displace]],
        meshes := [11 \<mapsto> \<lparr>geometry = [0, 0],
                    shape_keys = Some \<lparr>key_name = ''Key'',
                       key_blocks = [new_shape_key ''Basis'' [0, 0], ex_loud],
                       animation_data = None\<rparr>\<rparr>],
        selected := [1]\<rparr>"

text \<open>
  A mesh with two shape keys whose reference key is named \<open>Rest\<close> and whose
  second key bears the name the host gives a new reference key.
\<close>

definition rest_world :: "int list world" where
  "rest_world =
     blank_world
       \<lparr>objects := [1 \<mapsto> ex_obj ''Face'' 11 []],
        meshes := [11 \<mapsto> \<lparr>geometry = [0, 0],
                    shape_keys = Some \<lparr>key_name = ''Key'',
                       key_blocks = [new_shape_key ''Rest'' [0, 0], new_shape_key ''Basis'' [0, 5]],
                       animation_data = None\<rparr>\<rparr>],
        selected := [1]\<rparr>"

section \<open>Properties of the toggle operator\<close>

lemma filterE_Inr_set:
  "filterE p xs = Inr ys \<Longrightarrow> x \<in> set ys \<Longrightarrow> p x = Inr True"
  by (induction xs arbitrary: ys) (auto split: sum.splits if_splits)

lemma filterE_cong_fun: "(\<And>x. p x = q x) \<Longrightarrow> filterE p xs = filterE q xs"
proof -
  assume "\<And>x. p x = q x"
  then have "p = q" by (simp add: fun_eq_iff)
  then show ?thesis by simp
qed

lemma toggle_at_apply:
  "toggle_at act a M m = (if a = m then map_option (toggle_mesh act) (M m) else M m)"
  by (cases "M a") (auto simp: toggle_at_def)

lemma is_mesh_with_sk_cong:
  assumes "objects w' = objects w"
    and "\<And>m. map_option (\<lambda>me. shape_keys me = None) (meshes w' m) =
              map_option (\<lambda>me. shape_keys me = None) (meshes w m)"
  shows "is_mesh_with_sk w' i = is_mesh_with_sk w i"
proof (cases "objects w i")
  case None
  then show ?thesis by (simp add: is_mesh_with_sk_def assms(1))
next
  case (Some ob)
  show ?thesis
    using assms(2)[of "obj_data ob"]
    by (cases "meshes w (obj_data ob)"; cases "meshes w' (obj_data ob)")
       (simp_all add: is_mesh_with_sk_def assms(1) Some)
qed

lemma fold_toggle_at_pointwise:
  "fold (toggle_at act) ms M m = map_option ((toggle_mesh act) ^^ (count_list ms m)) (M m)"
proof (induction ms arbitrary: M)
  case Nil
  show ?case by (simp add: option.map_ident)
next
  case (Cons a ms)
  have "fold (toggle_at act) (a # ms) M m =
          map_option ((toggle_mesh act) ^^ (count_list ms m)) (toggle_at act a M m)"
    by (simp add: Cons)
  also have "\<dots> = map_option ((toggle_mesh act) ^^ (count_list (a # ms) m)) (M m)"
    by (cases "M m") (simp_all add: toggle_at_apply funpow_swap1)
  finally show ?case .
qed

lemma toggle_loop_char:
  assumes "\<forall>i\<in>set objs. is_mesh_with_sk w i = Inr True"
  shows "\<exists>n k. toggle_loop act objs a b w =
           (Inr (n, k), w\<lparr>meshes := fold (toggle_at act) (map (data_of w) objs) (meshes w)\<rparr>)"
  using assms
proof (induction objs arbitrary: a b w)
  case Nil
  show ?case by simp
next
  case (Cons i rest)
  from Cons.prems obtain ob me k where
    ob: "objects w i = Some ob" and me: "meshes w (obj_data ob) = Some me" and k: "shape_keys me = Some k"
    by (auto simp: is_mesh_with_sk_def split: option.splits if_splits)
  let ?w' = "w\<lparr>meshes := (meshes w)(obj_data ob \<mapsto> me\<lparr>shape_keys := Some (toggle_key act k)\<rparr>)\<rparr>"
  have "is_mesh_with_sk ?w' j = is_mesh_with_sk w j" for j
    by (rule is_mesh_with_sk_cong) (simp_all add: me k)
  then have elig: "\<forall>j\<in>set rest. is_mesh_with_sk ?w' j = Inr True"
    using Cons.prems by simp
  have d: "data_of ?w' = data_of w" by (simp add: data_of_def fun_eq_iff)
  have m: "meshes ?w' = toggle_at act (data_of w i) (meshes w)"
    by (simp add: toggle_at_def data_of_def ob me toggle_mesh_def k)
  from Cons.IH[OF elig] obtain n k' where
    "toggle_loop act rest (a + length (key_drivers (toggle_key act k)))
        (if length (key_drivers (toggle_key act k)) > 0 then b + 1 else b) ?w' =
       (Inr (n, k'), ?w'\<lparr>meshes := fold (toggle_at act) (map (data_of ?w') rest) (meshes ?w')\<rparr>)"
    by blast
  then show ?case
    by (simp add: ob me k Let_def d m del: length_greater_0_conv)
qed


lemma filterE_total:
  "\<forall>x\<in>set xs. \<exists>b. p x = Inr b \<Longrightarrow> filterE p xs = Inr (filter (\<lambda>x. p x = Inr True) xs)"
  by (induction xs) auto

lemma live_selection_filterE:
  assumes "live_selection w"
  shows "filterE (is_mesh_with_sk w) (selected w) =
           Inr (filter (\<lambda>j. is_mesh_with_sk w j = Inr True) (selected w))"
proof (rule filterE_total, rule ballI)
  fix j assume "j \<in> set (selected w)"
  with assms show "\<exists>b. is_mesh_with_sk w j = Inr b"
    by (auto simp: live_selection_def is_mesh_with_sk_def split: option.splits)
qed

lemma toggle_execute_frame:
  "meshes (snd (toggle_execute act w)) = fold (toggle_at act) (toggled_meshes w) (meshes w)
   \<and> objects (snd (toggle_execute act w)) = objects w
   \<and> selected (snd (toggle_execute act w)) = selected w"
proof (cases "filterE (is_mesh_with_sk w) (selected w)")
  case (Inl e)
  then show ?thesis by (simp add: toggle_execute_def toggled_meshes_def)
next
  case (Inr objs)
  show ?thesis
  proof (cases "objs = []")
    case True
    with Inr show ?thesis by (simp add: toggle_execute_def toggled_meshes_def report_def)
  next
    case False
    have "\<forall>i\<in>set objs. is_mesh_with_sk w i = Inr True"
      using filterE_Inr_set[OF Inr] by blast
    from toggle_loop_char[OF this, of act 0 0] obtain n k where
      "toggle_loop act objs 0 0 w =
         (Inr (n, k), w\<lparr>meshes := fold (toggle_at act) (map (data_of w) objs) (meshes w)\<rparr>)"
      by blast
    with Inr False show ?thesis
      by (simp add: toggle_execute_def toggled_meshes_def report_def)
  qed
qed

lemmas toggle_execute_meshes = toggle_execute_frame[THEN conjunct1]
lemmas toggle_execute_objects = toggle_execute_frame[THEN conjunct2, THEN conjunct1]
lemmas toggle_execute_selected = toggle_execute_frame[THEN conjunct2, THEN conjunct2]

lemma toggle_mesh_funpow_sk:
  "(shape_keys ((toggle_mesh act ^^ c) me) = None) = (shape_keys me = None)"
  by (induction c) (simp_all add: toggle_mesh_def)

lemma toggled_meshes_stable:
  assumes o: "objects w' = objects w" and s: "selected w' = selected w"
    and m: "meshes w' = fold (toggle_at act) ms (meshes w)"
  shows "toggled_meshes w' = toggled_meshes w"
proof -
  have "is_mesh_with_sk w' = is_mesh_with_sk w"
  proof (rule ext, rule is_mesh_with_sk_cong[OF o])
    fix k
    show "map_option (\<lambda>me. shape_keys me = None) (meshes w' k) =
          map_option (\<lambda>me. shape_keys me = None) (meshes w k)"
      by (cases "meshes w k")
         (simp_all add: m fold_toggle_at_pointwise toggle_mesh_funpow_sk)
  qed
  then have "filterE (is_mesh_with_sk w') (selected w') = filterE (is_mesh_with_sk w) (selected w)"
    by (simp add: s)
  moreover have "data_of w' = data_of w" by (simp add: data_of_def fun_eq_iff o)
  ultimately show ?thesis by (simp add: toggled_meshes_def split: sum.splits)
qed

lemma toggle_once_meshes:
  "meshes (snd (toggle_execute act w)) m =
     map_option (toggle_mesh act ^^ count_list (toggled_meshes w) m) (meshes w m)"
  by (simp only: toggle_execute_meshes fold_toggle_at_pointwise)

lemma toggle_twice_meshes:
  "meshes (snd (toggle_execute act (snd (toggle_execute act w)))) m =
     map_option (toggle_mesh act ^^ (count_list (toggled_meshes w) m + count_list (toggled_meshes w) m))
       (meshes w m)"
proof -
  let ?w1 = "snd (toggle_execute act w)"
  have 3: "toggled_meshes ?w1 = toggled_meshes w"
    by (rule toggled_meshes_stable[OF toggle_execute_objects toggle_execute_selected toggle_execute_meshes])
  have "meshes (snd (toggle_execute act ?w1)) m =
          map_option (toggle_mesh act ^^ count_list (toggled_meshes w) m) (meshes ?w1 m)"
    by (simp only: toggle_once_meshes 3)
  also have "\<dots> = map_option (toggle_mesh act ^^ count_list (toggled_meshes w) m)
                     (map_option (toggle_mesh act ^^ count_list (toggled_meshes w) m) (meshes w m))"
    by (simp only: toggle_once_meshes)
  also have "\<dots> = map_option (toggle_mesh act ^^ (count_list (toggled_meshes w) m + count_list (toggled_meshes w) m))
       (meshes w m)"
    by (cases "meshes w m") (simp_all add: funpow_add)
  finally show ?thesis .
qed

lemma toggle_driver_MUTE_idem: "toggle_driver MUTE (toggle_driver MUTE d) = toggle_driver MUTE d"
  by (simp add: toggle_driver_def)

lemma toggle_key_MUTE_idem: "toggle_key MUTE (toggle_key MUTE k) = toggle_key MUTE k"
  by (cases "animation_data k")
     (simp_all add: toggle_key_def animation_data_create_def empty_anim_def toggle_driver_MUTE_idem)

lemma toggle_mesh_MUTE_idem: "toggle_mesh MUTE (toggle_mesh MUTE me) = toggle_mesh MUTE me"
  by (cases "shape_keys me") (simp_all add: toggle_mesh_def toggle_key_MUTE_idem)

lemma funpow_idem:
  assumes "\<And>x. f (f x) = f x"
  shows "(f ^^ (c + c)) x = (f ^^ c) x"
proof -
  have 1: "(f ^^ Suc n) y = f y" for n y
    by (induction n) (simp_all add: assms)
  show ?thesis
  proof (cases c)
    case 0
    then show ?thesis by simp
  next
    case (Suc n)
    have "(f ^^ (c + c)) x = (f ^^ Suc (n + Suc n)) x" by (simp add: Suc)
    also have "\<dots> = f x" by (rule 1)
    also have "\<dots> = (f ^^ c) x" unfolding Suc by (rule 1[symmetric])
    finally show ?thesis .
  qed
qed

text \<open>
  Claim C8. Toggle Shapekey Drivers with action MUTE is idempotent: whatever is
  selected and whatever the drivers' mute flags are, running the operator a
  second time leaves every mesh datablock, and with it the mute flag of every
  driver, as the first run left it.
\<close>

theorem toggle_mute_idempotent:
  "meshes (snd (toggle_execute MUTE (snd (toggle_execute MUTE w)))) =
   meshes (snd (toggle_execute MUTE w))"
proof
  fix m
  show "meshes (snd (toggle_execute MUTE (snd (toggle_execute MUTE w)))) m =
        meshes (snd (toggle_execute MUTE w)) m"
  proof -
    let ?c = "count_list (toggled_meshes w) m"
    have "meshes (snd (toggle_execute MUTE (snd (toggle_execute MUTE w)))) m =
            map_option (toggle_mesh MUTE ^^ (?c + ?c)) (meshes w m)"
      by (rule toggle_twice_meshes)
    also have "\<dots> = map_option (toggle_mesh MUTE ^^ ?c) (meshes w m)"
      by (cases "meshes w m")
         (simp_all only: option.map funpow_idem[of "toggle_mesh MUTE", OF toggle_mesh_MUTE_idem])
    also have "\<dots> = meshes (snd (toggle_execute MUTE w)) m"
      by (rule toggle_once_meshes[symmetric])
    finally show ?thesis .
  qed
qed

lemma toggle_driver_TOGGLE_twice: "toggle_driver TOGGLE (toggle_driver TOGGLE d) = d"
  by (simp add: toggle_driver_def)

lemma key_drivers_TOGGLE_twice:
  "key_drivers (toggle_key TOGGLE (toggle_key TOGGLE k)) = key_drivers k"
  by (cases "animation_data k")
     (simp_all add: toggle_key_def animation_data_create_def empty_anim_def key_drivers_def
        toggle_driver_TOGGLE_twice comp_def)

lemma mesh_drivers_TOGGLE_twice:
  "mesh_drivers (Some (toggle_mesh TOGGLE (toggle_mesh TOGGLE me))) = mesh_drivers (Some me)"
  by (cases "shape_keys me") (simp_all add: mesh_drivers_def toggle_mesh_def key_drivers_TOGGLE_twice)

lemma mesh_drivers_TOGGLE_even:
  "mesh_drivers (Some ((toggle_mesh TOGGLE ^^ (c + c)) me)) = mesh_drivers (Some me)"
proof (induction c arbitrary: me)
  case 0
  show ?case by simp
next
  case (Suc c)
  have "(toggle_mesh TOGGLE ^^ (Suc c + Suc c)) me =
          (toggle_mesh TOGGLE ^^ (c + c)) (toggle_mesh TOGGLE (toggle_mesh TOGGLE me))"
    by (simp add: funpow_swap1)
  then show ?case by (simp only: Suc mesh_drivers_TOGGLE_twice)
qed

text \<open>
  Claim C9. Toggle Shapekey Drivers with action TOGGLE is an involution on the
  drivers: after two runs the drivers of every mesh datablock, mute flags
  included, are the ones it had before the first run.
\<close>

theorem toggle_toggle_involution:
  "mesh_drivers (meshes (snd (toggle_execute TOGGLE (snd (toggle_execute TOGGLE w)))) m) =
   mesh_drivers (meshes w m)"
proof (cases "meshes w m")
  case None
  then show ?thesis by (simp add: toggle_twice_meshes)
next
  case (Some me)
  then show ?thesis by (simp add: toggle_twice_meshes mesh_drivers_TOGGLE_even)
qed


lemma toggle_key_no_anim:
  assumes "animation_data k = None"
  shows "toggle_key act k = k\<lparr>animation_data := Some empty_anim\<rparr>"
    and "toggle_key act (k\<lparr>animation_data := Some empty_anim\<rparr>) = k\<lparr>animation_data := Some empty_anim\<rparr>"
  using assms by (simp_all add: toggle_key_def animation_data_create_def empty_anim_def)

lemma toggle_mesh_no_anim:
  assumes "shape_keys me = Some k" "animation_data k = None"
  shows "(toggle_mesh act ^^ Suc c) me = me\<lparr>shape_keys := Some (k\<lparr>animation_data := Some empty_anim\<rparr>)\<rparr>"
proof (induction c)
  case 0
  show ?case using assms by (simp add: toggle_mesh_def toggle_key_no_anim(1))
next
  case (Suc c)
  have "(toggle_mesh act ^^ Suc (Suc c)) me = toggle_mesh act ((toggle_mesh act ^^ Suc c) me)"
    by simp
  also have "\<dots> = toggle_mesh act (me\<lparr>shape_keys := Some (k\<lparr>animation_data := Some empty_anim\<rparr>)\<rparr>)"
    by (simp only: Suc)
  also have "\<dots> = me\<lparr>shape_keys := Some (k\<lparr>animation_data := Some empty_anim\<rparr>)\<rparr>"
    using assms(2) by (simp add: toggle_mesh_def toggle_key_no_anim(2))
  finally show ?case .
qed

lemma toggle_execute_finished:
  assumes "live_selection w" "i \<in> set (selected w)" "is_mesh_with_sk w i = Inr True"
  shows "fst (toggle_execute act w) = Inr FINISHED"
proof -
  let ?objs = "filter (\<lambda>j. is_mesh_with_sk w j = Inr True) (selected w)"
  have f: "filterE (is_mesh_with_sk w) (selected w) = Inr ?objs"
    by (rule live_selection_filterE[OF assms(1)])
  have ne: "?objs \<noteq> []" using assms(2,3) by (auto simp: filter_empty_conv)
  have "\<forall>i\<in>set ?objs. is_mesh_with_sk w i = Inr True" by simp
  from toggle_loop_char[OF this, of act 0 0] obtain n k where
    "toggle_loop act ?objs 0 0 w =
       (Inr (n, k), w\<lparr>meshes := fold (toggle_at act) (map (data_of w) ?objs) (meshes w)\<rparr>)"
    by blast
  with f ne show ?thesis by (simp add: toggle_execute_def)
qed

text \<open>
  Claim C10. Toggle Shapekey Drivers changes the scene also when it toggles no
  driver: for every selected mesh with shape keys whose container has no
  animation data, the run finishes and has created an empty animation-data
  block on the container, so the mesh datablocks are no longer what they were.
\<close>

theorem toggle_creates_animation_data:
  assumes "live_selection w" and "i \<in> set (selected w)" and "objects w i = Some ob"
    and "obj_type ob = ''MESH''" and "meshes w (obj_data ob) = Some me"
    and "shape_keys me = Some k" and "animation_data k = None"
  shows "fst (toggle_execute act w) = Inr FINISHED \<and>
         meshes (snd (toggle_execute act w)) (obj_data ob) =
           Some (me\<lparr>shape_keys := Some (k\<lparr>animation_data := Some empty_anim\<rparr>)\<rparr>) \<and>
         meshes (snd (toggle_execute act w)) \<noteq> meshes w"
proof -
  have el: "is_mesh_with_sk w i = Inr True"
    using assms by (simp add: is_mesh_with_sk_def)
  have fin: "fst (toggle_execute act w) = Inr FINISHED"
    by (rule toggle_execute_finished[OF assms(1,2) el])
  have "toggled_meshes w = map (data_of w) (filter (\<lambda>j. is_mesh_with_sk w j = Inr True) (selected w))"
    by (simp add: toggled_meshes_def live_selection_filterE[OF assms(1)])
  moreover have "data_of w i = obj_data ob" by (simp add: data_of_def assms(3))
  ultimately have "obj_data ob \<in> set (toggled_meshes w)"
    using assms(2) el by force
  then have "count_list (toggled_meshes w) (obj_data ob) \<noteq> 0"
    by (simp add: count_list_0_iff)
  then obtain c where c: "count_list (toggled_meshes w) (obj_data ob) = Suc c"
    using not0_implies_Suc by blast
  have m: "meshes (snd (toggle_execute act w)) (obj_data ob) =
           Some (me\<lparr>shape_keys := Some (k\<lparr>animation_data := Some empty_anim\<rparr>)\<rparr>)"
    unfolding toggle_once_meshes c assms(5) option.map
    by (simp only: toggle_mesh_no_anim[OF assms(6,7)])
  have "me\<lparr>shape_keys := Some (k\<lparr>animation_data := Some empty_anim\<rparr>)\<rparr> \<noteq> me"
  proof
    assume "me\<lparr>shape_keys := Some (k\<lparr>animation_data := Some empty_anim\<rparr>)\<rparr> = me"
    then have "shape_keys (me\<lparr>shape_keys := Some (k\<lparr>animation_data := Some empty_anim\<rparr>)\<rparr>) = shape_keys me"
      by simp
    then have "animation_data (k\<lparr>animation_data := Some empty_anim\<rparr>) = animation_data k"
      by (simp add: assms(6))
    then show False by (simp add: assms(7))
  qed
  then have "meshes (snd (toggle_execute act w)) \<noteq> meshes w"
    using m assms(5) by (metis option.inject)
  with fin m show ?thesis by blast
qed


lemmas ex_defs =
  driver_world_def blank_world_def ex_obj_def ex_key_def ex_driver_def new_shape_key_def
  shared_rig_world_def rig_only_world_def ex_arm_mod_def ex_rig_def ex_bone_def
  stack_world_def ex_subsurf_def ex_broken_def ex_displace_def ex_host_def
  ex_smile_def ex_frown_def face_world_def

lemmas toggle_defs =
  toggle_execute_def is_mesh_with_sk_def toggle_key_def toggle_driver_def
  animation_data_create_def key_drivers_def mesh_drivers_def empty_anim_def report_def
  action_word_def digit_char_def

theorem toggle_mute_idempotent_witness:
  "meshes (snd (toggle_execute MUTE (snd (toggle_execute MUTE driver_world)))) =
     meshes (snd (toggle_execute MUTE driver_world)) \<and>
   map fc_mute (mesh_drivers (meshes (snd (toggle_execute MUTE driver_world)) 12)) = [True] \<and>
   reports (snd (toggle_execute MUTE driver_world)) =
     [(''INFO'', ''Muted 1 drivers for 1 objects'')]"
proof -
  have "map fc_mute (mesh_drivers (meshes (snd (toggle_execute MUTE driver_world)) 12)) = [True]"
    by (simp add: ex_defs toggle_defs)
  moreover have "reports (snd (toggle_execute MUTE driver_world)) =
     [(''INFO'', ''Muted 1 drivers for 1 objects'')]"
    by (simp add: ex_defs toggle_defs)
  ultimately show ?thesis
    using toggle_mute_idempotent[of driver_world] by simp
qed

theorem toggle_toggle_involution_witness:
  "mesh_drivers (meshes (snd (toggle_execute TOGGLE (snd (toggle_execute TOGGLE driver_world)))) 12) =
     [ex_driver] \<and>
   map fc_mute (mesh_drivers (meshes (snd (toggle_execute TOGGLE driver_world)) 12)) = [True]"
proof -
  have "mesh_drivers (meshes driver_world 12) = [ex_driver]"
    by (simp add: ex_defs toggle_defs)
  moreover have
    "map fc_mute (mesh_drivers (meshes (snd (toggle_execute TOGGLE driver_world)) 12)) = [True]"
    by (simp add: ex_defs toggle_defs)
  ultimately show ?thesis
    using toggle_toggle_involution[of driver_world 12] by simp
qed

theorem toggle_creates_animation_data_witness:
  "live_selection (driver_world\<lparr>selected := [1]\<rparr>) \<and>
   animation_data (ex_key None) = None \<and>
   fst (toggle_execute TOGGLE (driver_world\<lparr>selected := [1]\<rparr>)) = Inr FINISHED \<and>
   meshes (snd (toggle_execute TOGGLE (driver_world\<lparr>selected := [1]\<rparr>))) 11 =
     Some \<lparr>geometry = [0, 0], shape_keys = Some (ex_key (Some empty_anim))\<rparr> \<and>
   reports (snd (toggle_execute TOGGLE (driver_world\<lparr>selected := [1]\<rparr>))) =
     [(''INFO'', ''Toggled 0 drivers for 0 objects'')]"
proof -
  let ?w = "driver_world\<lparr>selected := [1]\<rparr>"
  let ?me = "\<lparr>geometry = [0, 0], shape_keys = Some (ex_key None)\<rparr> :: int list mesh"
  have l: "live_selection ?w"
    by (simp add: live_selection_def ex_defs)
  have s: "1 \<in> set (selected ?w)" by simp
  have o: "objects ?w 1 = Some (ex_obj ''Face'' 11 [])" by (simp add: ex_defs)
  have t: "obj_type (ex_obj ''Face'' 11 []) = ''MESH''" by (simp add: ex_defs)
  have m: "meshes ?w (obj_data (ex_obj ''Face'' 11 [])) = Some ?me" by (simp add: ex_defs)
  have k: "shape_keys ?me = Some (ex_key None)" by simp
  have a: "animation_data (ex_key None :: int list key) = None" by (simp add: ex_defs)
  have r: "reports (snd (toggle_execute TOGGLE ?w)) = [(''INFO'', ''Toggled 0 drivers for 0 objects'')]"
    by (simp add: ex_defs toggle_defs)
  have e: "(ex_key None :: int list key)\<lparr>animation_data := Some empty_anim\<rparr> = ex_key (Some empty_anim)"
    by (simp add: ex_defs)
  from toggle_creates_animation_data[OF l s o t m k a, of TOGGLE] l a r show ?thesis
    by (simp add: e ex_obj_def)
qed

section \<open>Properties of the bake operator\<close>

text \<open>
  Claim C7. When the execute trigger is not set, Bake Shapekey Animation returns
  FINISHED and the whole state is as it was: no frame change, no keyframe, no
  report.
\<close>

theorem bake_without_trigger:
  "\<not> get_execute w \<Longrightarrow> bake_execute w = (Inr FINISHED, w)"
  by (simp add: bake_execute_def)

lemmas bake_defs =
  bake_execute_def get_execute_def set_execute_def is_mesh_with_sk_def keyframe_insert_def
  report_def empty_anim_def upto.simps

theorem bake_without_trigger_witness:
  "\<not> get_execute driver_world \<and>
   bake_execute driver_world = (Inr FINISHED, driver_world) \<and>
   frame_current (snd (bake_execute
     (driver_world\<lparr>selected := [2], BAKE_SHAPEKEY_ANIMATION_FRAME_START := Some 3,
        BAKE_SHAPEKEY_ANIMATION_FRAME_END := Some 4, BAKE_SHAPEKEY_ANIMATION_EXECUTE := True\<rparr>))) = 4"
proof -
  have h: "\<not> get_execute driver_world"
    by (simp add: get_execute_def ex_defs)
  have "frame_current (snd (bake_execute
     (driver_world\<lparr>selected := [2], BAKE_SHAPEKEY_ANIMATION_FRAME_START := Some 3,
        BAKE_SHAPEKEY_ANIMATION_FRAME_END := Some 4, BAKE_SHAPEKEY_ANIMATION_EXECUTE := True\<rparr>))) = 4"
    by (simp add: ex_defs bake_defs)
  with h bake_without_trigger[OF h] show ?thesis by simp
qed

section \<open>Properties of the apply operator\<close>

lemma filterE_none: "\<forall>i\<in>set xs. p i = Inr False \<Longrightarrow> filterE p xs = Inr []"
  by (induction xs) auto

text \<open>
  Claim C6. When no selected object is a mesh, Apply Modifiers reports an error
  to the user, returns CANCELLED and leaves the scene untouched: the state
  differs from the one before by the error report alone, whatever the action
  and the reset-pose option are.
\<close>

theorem apply_mods_without_mesh:
  assumes "\<forall>i\<in>set (selected w). \<exists>ob. objects w i = Some ob \<and> obj_type ob \<noteq> ''MESH''"
  shows "apply_mods_execute h act do_reset_pose w =
           (Inr CANCELLED,
            w\<lparr>reports := reports w @
                 [(''ERROR'', ''No Active object. Please select at least 1 mesh object'')]\<rparr>)"
proof -
  have "\<forall>i\<in>set (selected w). is_mesh w i = Inr False"
    using assms by (auto simp: is_mesh_def)
  then have "filterE (is_mesh w) (selected w) = Inr []"
    by (rule filterE_none)
  then show ?thesis
    by (simp add: apply_mods_execute_def report_def)
qed

theorem apply_mods_without_mesh_witness:
  "selected rig_only_world = [7] \<and>
   map_option obj_type (objects rig_only_world 7) = Some ''ARMATURE'' \<and>
   fst (apply_mods_execute ex_host ALL_MODIFIERS_WITH_SHAPEKEYS True rig_only_world) =
     Inr CANCELLED \<and>
   objects (snd (apply_mods_execute ex_host ALL_MODIFIERS_WITH_SHAPEKEYS True rig_only_world)) 7 =
     Some ex_rig \<and>
   events (snd (apply_mods_execute ex_host ALL_MODIFIERS_WITH_SHAPEKEYS True rig_only_world)) = []"
proof -
  have a: "\<forall>i\<in>set (selected rig_only_world).
      \<exists>ob. objects rig_only_world i = Some ob \<and> obj_type ob \<noteq> ''MESH''"
    by (simp add: ex_defs)
  have "objects rig_only_world 7 = Some ex_rig" "events rig_only_world = []"
    "selected rig_only_world = [7]" "obj_type ex_rig = ''ARMATURE''"
    by (simp_all add: rig_only_world_def shared_rig_world_def blank_world_def ex_rig_def)
  with apply_mods_without_mesh[OF a, of ex_host ALL_MODIFIERS_WITH_SHAPEKEYS True]
  show ?thesis by simp
qed

text \<open>
  Claim C4, evaluated. Two selected meshes are bound to the same armature. The
  pose-reset step resets that armature twice: what it records as processed is
  the modifier, what it looks up is the armature object, and the two are never
  equal.
\<close>

theorem reset_armature_pose_shared_rig:
  "fst (reset_armature_loop [1, 2] [] shared_rig_world) =
     Inr [ModifierRef 1 ''Armature'', ModifierRef 2 ''Armature''] \<and>
   events (snd (reset_armature_pose [1, 2] shared_rig_world)) = [PoseReset 7, PoseReset 7]"
  by (simp add: reset_armature_pose_def reset_pose_def ex_defs)

text \<open>
  The range check of the isolation step: an index below zero or above the
  number of keys is a silent no-op; the number of keys itself passes the check,
  every key is removed, and the read that follows raises.
\<close>

lemma apply_shapekey_out_of_range:
  "shapekeys_len obj w = Inr n \<Longrightarrow> sk_keep < 0 \<or> int n < sk_keep \<Longrightarrow>
   apply_shapekey obj sk_keep w = (Inr (), w)"
  by (simp add: apply_shapekey_def)

lemma remove_others_all:
  assumes "objects w obj = Some ob" and "meshes w (obj_data ob) = Some me"
    and "shape_keys me = Some k" and "length (key_blocks k) = Suc n"
    and "int (Suc n) \<le> sk_keep"
  shows "\<exists>me'. remove_others obj sk_keep (rev [0..<Suc n]) w =
           (Inr (), w\<lparr>meshes := (meshes w)(obj_data ob \<mapsto> me')\<rparr>) \<and>
         shape_keys me' = None"
  using assms
proof (induction n arbitrary: w me k)
  case 0
  then obtain b where b: "key_blocks k = [b]"
    by (cases "key_blocks k") simp_all
  have rm: "shape_key_remove obj 0 w =
      (Inr (), w\<lparr>meshes := (meshes w)(obj_data ob \<mapsto> me\<lparr>shape_keys := None\<rparr>)\<rparr>)"
    using 0 b by (simp add: shape_key_remove_def)
  have it: "shapekeys_item obj 0 w = Inr b"
    using 0 b by (simp add: shapekeys_item_def)
  have ne: "int 0 \<noteq> sk_keep" using 0 by simp
  have "remove_others obj sk_keep (rev [0..<Suc 0]) w =
      (Inr (), w\<lparr>meshes := (meshes w)(obj_data ob \<mapsto> me\<lparr>shape_keys := None\<rparr>)\<rparr>)"
    using ne by (simp add: it rm)
  moreover have "shape_keys (me\<lparr>shape_keys := None\<rparr>) = None" by simp
  ultimately show ?case by blast
next
  case (Suc n)
  let ?kbs = "take (Suc n) (key_blocks k)"
  have l: "length ?kbs = Suc n" using Suc.prems(4) by simp
  then obtain b bs where kb: "?kbs = b # bs" by (cases ?kbs) simp_all
  let ?me1 = "me\<lparr>shape_keys := Some (k\<lparr>key_blocks := ?kbs\<rparr>)\<rparr>"
  let ?w1 = "w\<lparr>meshes := (meshes w)(obj_data ob \<mapsto> ?me1)\<rparr>"
  have ne: "int (Suc n) \<noteq> sk_keep" using Suc.prems(5) by simp
  have it: "shapekeys_item obj (Suc n) w = Inr (key_blocks k ! Suc n)"
    using Suc.prems by (simp add: shapekeys_item_def)
  have rm: "shape_key_remove obj (Suc n) w = (Inr (), ?w1)"
    using Suc.prems(1-4) kb by (simp add: shape_key_remove_def)
  have o1: "objects ?w1 obj = Some ob" using Suc.prems(1) by simp
  have m1: "meshes ?w1 (obj_data ob) = Some ?me1" by simp
  have k1: "shape_keys ?me1 = Some (k\<lparr>key_blocks := ?kbs\<rparr>)" by simp
  have l1: "length (key_blocks (k\<lparr>key_blocks := ?kbs\<rparr>)) = Suc n" using l by simp
  have s1: "int (Suc n) \<le> sk_keep" using Suc.prems(5) by simp
  from Suc.IH[OF o1 m1 k1 l1 s1] obtain me' where r:
    "remove_others obj sk_keep (rev [0..<Suc n]) ?w1 =
       (Inr (), ?w1\<lparr>meshes := (meshes ?w1)(obj_data ob \<mapsto> me')\<rparr>)"
    "shape_keys me' = None"
    by blast
  have e: "?w1\<lparr>meshes := (meshes ?w1)(obj_data ob \<mapsto> me')\<rparr> =
           w\<lparr>meshes := (meshes w)(obj_data ob \<mapsto> me')\<rparr>"
    by simp
  have "remove_others obj sk_keep (rev [0..<Suc (Suc n)]) w =
          remove_others obj sk_keep (rev [0..<Suc n]) ?w1"
    using ne it rm by simp
  with r(1) have "remove_others obj sk_keep (rev [0..<Suc (Suc n)]) w =
          (Inr (), w\<lparr>meshes := (meshes w)(obj_data ob \<mapsto> me')\<rparr>)"
    by (simp only: e)
  with r(2) show ?case by blast
qed

lemma apply_shapekey_at_length_raises:
  assumes "shapekeys_len obj w = Inr n"
  shows "\<exists>e w'. apply_shapekey obj (int n) w = (Inl e, w') \<and>
           (0 < n \<longrightarrow> keys_of w' obj = [] \<and> keys_of w obj \<noteq> [])"
proof -
  from assms obtain ob me k where o: "objects w obj = Some ob"
    and m: "meshes w (obj_data ob) = Some me" and k: "shape_keys me = Some k"
    and n: "length (key_blocks k) = n"
    by (auto simp: shapekeys_len_def split: option.splits)
  show ?thesis
  proof (cases n)
    case 0
    then have "apply_shapekey obj (int n) w = (Inl IndexError, w)"
      using assms o m k n by (simp add: apply_shapekey_def shapekeys_item_def)
    with 0 show ?thesis by simp
  next
    case (Suc n')
    from remove_others_all[OF o m k n[unfolded Suc], of "int n"] Suc obtain me' where r:
      "remove_others obj (int n) (rev [0..<n]) w =
         (Inr (), w\<lparr>meshes := (meshes w)(obj_data ob \<mapsto> me')\<rparr>)"
      "shape_keys me' = None"
      by auto
    let ?w' = "w\<lparr>meshes := (meshes w)(obj_data ob \<mapsto> me')\<rparr>"
    have "shapekeys_item obj 0 ?w' = Inl IndexError"
      using o r(2) by (simp add: shapekeys_item_def)
    then have a: "apply_shapekey obj (int n) w = (Inl IndexError, ?w')"
      using assms r(1) by (simp add: apply_shapekey_def)
    have "keys_of ?w' obj = []" using o r(2) by (simp add: keys_of_def)
    moreover have "keys_of w obj \<noteq> []" using o m k n Suc by (auto simp: keys_of_def)
    ultimately show ?thesis using a by simp
  qed
qed

text \<open>
  Claim C5, evaluated. The object has two shape keys and the target index is 2,
  one past the last key. The range check lets the index through, the loop
  removes both keys, and the final read of the first key raises.
\<close>

theorem apply_shapekey_at_length:
  "shapekeys_len 1 driver_world = Inr 2 \<and>
   apply_shapekey 1 2 driver_world =
     (Inl IndexError,
      driver_world\<lparr>meshes := (meshes driver_world)(11 \<mapsto>
         \<lparr>geometry = [0, 0], shape_keys = None\<rparr>)\<rparr>)"
  by (simp add: apply_shapekey_def shapekeys_len_def shapekeys_item_def shape_key_remove_def
      ex_defs)

section \<open>Properties of the modifier step\<close>












lemma disable_control_edges_fields [simp]:
  "mod_name (disable_control_edges m) = mod_name m"
  "mod_type (disable_control_edges m) = mod_type m"
  "mod_object (disable_control_edges m) = mod_object m"
  by (simp_all add: disable_control_edges_def)














lemmas mod_defs = apply_modifiers_def apply_one_def modifier_apply_def modifier_remove_def
  disable_control_edges_def report_def removed_msg_def

lemmas sk_defs = with_sk_object_def make_receiver_def replace_original_def transfer_animation_def
  copy_action_def anim_of_def skid_of_def set_skid_def donor_step_def copy_object_def copy_one_def
  apply_shapekey_def shapekeys_len_def shapekeys_item_def shape_key_remove_def key_block_at_def
  add_objs_shapekeys_def select_set_true_def join_shapes_def fitting_def List.map_filter_def
  update_key_block_def restore_metadata_def set_sk_name_def set_slider_min_def
  set_slider_max_def set_sk_value_def clamp_def first_free_def pad3_def
  remove_object_def remove_mesh_def animation_data_create_def empty_anim_def
  digit_char_def keys_of_def sk_meta_def

lemmas exec_defs = apply_mods_execute_def is_mesh_def reset_armature_pose_def reset_pose_def
  reset_bone_def







section \<open>Properties of the shape-key pipeline\<close>

lemma only_mesh_refl: "only_mesh m w w"
  by (simp add: only_mesh_def)

lemma only_mesh_trans: "only_mesh m w w1 \<Longrightarrow> only_mesh m w1 w2 \<Longrightarrow> only_mesh m w w2"
  by (simp add: only_mesh_def)

lemma only_object_refl: "only_object c m w w"
  by (simp add: only_object_def)

lemma only_object_trans: "only_object c m w w1 \<Longrightarrow> only_object c m w1 w2 \<Longrightarrow> only_object c m w w2"
  by (simp add: only_object_def)

lemma keys_of_cong:
  assumes "objects w' i = objects w i"
    and "\<And>ob. objects w i = Some ob \<Longrightarrow> meshes w' (obj_data ob) = meshes w (obj_data ob)"
  shows "keys_of w' i = keys_of w i"
  using assms by (cases "objects w i") (simp_all add: keys_of_def)

lemma key_block_at_keys_of:
  "key_block_at obj i w = Inr sk \<Longrightarrow> i < length (keys_of w obj) \<and> sk = keys_of w obj ! i"
  by (auto simp: key_block_at_def keys_of_def split: option.splits if_splits)

lemma shapekeys_len_keys_of:
  "shapekeys_len obj w = Inr n \<Longrightarrow> n = length (keys_of w obj)"
  by (auto simp: shapekeys_len_def keys_of_def split: option.splits)

lemma copy_object_result:
  assumes "copy_object obj 1 0 w = (Inr cs, w1)"
  shows "\<exists>ob me nm. objects w obj = Some ob \<and> meshes w (obj_data ob) = Some me \<and>
           cs = [next_id w] \<and>
           objects w1 = (objects w)(next_id w \<mapsto>
              ob\<lparr>obj_data := next_id w + 1, obj_name := nm\<rparr>) \<and>
           meshes w1 = (meshes w)(next_id w + 1 \<mapsto> me) \<and>
           next_id w1 = next_id w + 2"
  using assms
  by (auto simp: copy_object_def copy_one_def Let_def split: option.splits)

lemma shape_key_remove_frame:
  assumes "shape_key_remove c i w = (r, w')" and "objects w c = Some ob"
  shows "only_mesh (obj_data ob) w w'"
  using assms
  by (auto simp: shape_key_remove_def only_mesh_def Let_def split: option.splits if_splits)

lemma remove_others_frame:
  assumes "remove_others c k is w = (r, w')" and "objects w c = Some ob"
  shows "only_mesh (obj_data ob) w w'"
  using assms
proof (induction "is" arbitrary: w)
  case Nil
  then show ?case by (simp add: only_mesh_refl)
next
  case (Cons i rest)
  show ?case
  proof (cases "int i \<noteq> k")
    case False
    with Cons show ?thesis by simp
  next
    case True
    show ?thesis
    proof (cases "shapekeys_item c i w")
      case (Inl e)
      with True Cons.prems show ?thesis by (auto simp: only_mesh_refl)
    next
      case (Inr kb)
      obtain r1 w1 where s: "shape_key_remove c i w = (r1, w1)" by (cases "shape_key_remove c i w")
      have f1: "only_mesh (obj_data ob) w w1"
        by (rule shape_key_remove_frame[OF s Cons.prems(2)])
      then have o1: "objects w1 c = Some ob" using Cons.prems(2) by (simp add: only_mesh_def)
      show ?thesis
      proof (cases r1)
        case (Inl e)
        with True Inr s Cons.prems(1) have "w' = w1" by simp
        with f1 show ?thesis by simp
      next
        case (Inr u)
        with True \<open>shapekeys_item c i w = Inr kb\<close> s Cons.prems(1)
        have "remove_others c k rest w1 = (r, w')" by simp
        from Cons.IH[OF this o1] f1 show ?thesis by (rule only_mesh_trans[rotated])
      qed
    qed
  qed
qed

lemma apply_shapekey_frame:
  assumes "apply_shapekey c k w = (r, w')" and "objects w c = Some ob"
  shows "only_mesh (obj_data ob) w w'"
proof (cases "shapekeys_len c w")
  case (Inl e)
  with assms show ?thesis by (simp add: apply_shapekey_def only_mesh_refl)
next
  case (Inr n)
  show ?thesis
  proof (cases "k < 0 \<or> k > int n")
    case True
    with Inr assms show ?thesis by (simp add: apply_shapekey_def only_mesh_refl)
  next
    case False
    obtain r1 w1 where ro: "remove_others c k (rev [0..<n]) w = (r1, w1)"
      by (cases "remove_others c k (rev [0..<n]) w")
    have f1: "only_mesh (obj_data ob) w w1" by (rule remove_others_frame[OF ro assms(2)])
    then have o1: "objects w1 c = Some ob" using assms(2) by (simp add: only_mesh_def)
    show ?thesis
    proof (cases r1)
      case (Inl e)
      with False Inr ro assms(1) have "w' = w1" by (simp add: apply_shapekey_def)
      with f1 show ?thesis by simp
    next
      case (Inr u)
      show ?thesis
      proof (cases "shapekeys_item c 0 w1")
        case (Inl e)
        with False \<open>shapekeys_len c w = Inr n\<close> ro Inr assms(1) have "w' = w1"
          by (simp add: apply_shapekey_def)
        with f1 show ?thesis by simp
      next
        case (Inr kb)
        with False \<open>shapekeys_len c w = Inr n\<close> ro \<open>r1 = Inr u\<close> assms(1)
        have "shape_key_remove c 0 w1 = (r, w')" by (simp add: apply_shapekey_def)
        from shape_key_remove_frame[OF this o1] f1 show ?thesis
          by (rule only_mesh_trans[rotated])
      qed
    qed
  qed
qed

lemma modifier_apply_frame:
  assumes "modifier_apply h nm w = (r, w')" and "active w = Some c" and "objects w c = Some ob"
  shows "only_object c (obj_data ob) w w' \<and> active w' = Some c"
  using assms
  by (auto simp: modifier_apply_def only_object_def split: option.splits)

lemma modifier_remove_frame:
  assumes "modifier_remove nm w = (r, w')" and "active w = Some c" and "objects w c = Some ob"
  shows "only_object c (obj_data ob) w w' \<and> active w' = Some c"
  using assms
  by (auto simp: modifier_remove_def only_object_def split: option.splits)

lemma report_frame: "only_object c m w (report l msg w) \<and> active (report l msg w) = active w"
  by (simp add: report_def only_object_def)

lemma only_object_live:
  assumes "only_object c m w w'" and "objects w c = Some ob"
  shows "\<exists>ob'. objects w' c = Some ob' \<and> obj_data ob' = obj_data ob"
  using assms by (cases "objects w' c") (auto simp: only_object_def)

lemma apply_one_frame:
  assumes "apply_one h c m w = (r, w')" and "active w = Some c" and "objects w c = Some ob"
  shows "only_object c (obj_data ob) w w' \<and> active w' = Some c"
proof (cases "mod_type m \<noteq> ''ARMATURE''")
  case False
  with assms show ?thesis by (simp add: apply_one_def only_object_refl)
next
  case True
  obtain r1 w1 where ma: "modifier_apply h (mod_name m) w = (r1, w1)"
    by (cases "modifier_apply h (mod_name m) w")
  from modifier_apply_frame[OF ma assms(2,3)]
  have f1: "only_object c (obj_data ob) w w1" and a1: "active w1 = Some c" by simp_all
  show ?thesis
  proof (cases r1)
    case (Inr u)
    with True ma assms(1) have "w' = w1" by (simp add: apply_one_def)
    with f1 a1 show ?thesis by simp
  next
    case (Inl e)
    from only_object_live[OF f1 assms(3)] obtain ob1 where
      o1: "objects w1 c = Some ob1" and d1: "obj_data ob1 = obj_data ob" by blast
    let ?w2 = "report ''INFO'' (removed_msg m (obj_name ob1)) w1"
    have mr: "modifier_remove (mod_name m) ?w2 = (r, w')"
      using True ma Inl o1 assms(1) by (simp add: apply_one_def)
    have a2: "active ?w2 = Some c" and o2: "objects ?w2 c = Some ob1"
      by (simp_all add: report_def a1 o1)
    have f2: "only_object c (obj_data ob) w1 ?w2" by (simp add: report_frame)
    from modifier_remove_frame[OF mr a2 o2] d1
    have f3: "only_object c (obj_data ob) ?w2 w'" and a3: "active w' = Some c" by simp_all
    from only_object_trans[OF only_object_trans[OF f1 f2] f3] a3 show ?thesis by simp
  qed
qed

lemma apply_loop_frame:
  assumes "apply_loop h c ms w = (r, w')" and "active w = Some c" and "objects w c = Some ob"
  shows "only_object c (obj_data ob) w w'"
  using assms
proof (induction ms arbitrary: w ob)
  case Nil
  then show ?case by (simp add: only_object_refl)
next
  case (Cons m ms)
  obtain r1 w1 where ao: "apply_one h c m w = (r1, w1)" by (cases "apply_one h c m w")
  from apply_one_frame[OF ao Cons.prems(2,3)]
  have f1: "only_object c (obj_data ob) w w1" and a1: "active w1 = Some c" by simp_all
  show ?case
  proof (cases r1)
    case (Inl e)
    with ao Cons.prems(1) have "w' = w1" by simp
    with f1 show ?thesis by simp
  next
    case (Inr u)
    from only_object_live[OF f1 Cons.prems(3)] obtain ob1 where
      o1: "objects w1 c = Some ob1" and d1: "obj_data ob1 = obj_data ob" by blast
    from Inr ao Cons.prems(1) have "apply_loop h c ms w1 = (r, w')" by simp
    from Cons.IH[OF this a1 o1] d1 have "only_object c (obj_data ob) w1 w'" by simp
    with f1 show ?thesis by (rule only_object_trans)
  qed
qed

lemma apply_modifiers_frame:
  assumes "apply_modifiers h c w = (r, w')" and "objects w c = Some ob"
  shows "only_object c (obj_data ob) w w'"
proof -
  let ?ms = "map disable_control_edges (modifiers ob)"
  let ?ob = "ob\<lparr>modifiers := ?ms\<rparr>"
  let ?w2 = "w\<lparr>objects := (objects w)(c \<mapsto> ?ob), selected := [c], active := Some c\<rparr>"
  have e: "apply_loop h c ?ms ?w2 = (r, w')"
    using assms by (simp add: apply_modifiers_def Let_def)
  have f0: "only_object c (obj_data ob) w ?w2"
    by (simp add: only_object_def assms(2))
  have "only_object c (obj_data ?ob) ?w2 w'"
    by (rule apply_loop_frame[OF e]) simp_all
  then have "only_object c (obj_data ob) ?w2 w'" by simp
  with f0 show ?thesis by (rule only_object_trans)
qed

lemma restored_restore: "restored obj_sk (restore_metadata h obj_sk taken sk)"
  by (simp add: restored_def sk_wf_def restore_metadata_def set_sk_name_def set_slider_min_def
      set_slider_max_def set_sk_value_def clamp_def Let_def)

lemma add_keys_appends: "\<exists>ys. add_keys h srcs kbs = kbs @ ys"
  by (induction h srcs kbs rule: add_keys.induct) auto

lemma join_shapes_result:
  assumes "join_shapes h w = (Inr res, w')" and "active w = Some r" and "objects w r = Some rob"
  shows "only_mesh (obj_data rob) w w' \<and> (\<exists>ys. keys_of w' r = keys_of w r @ ys)"
proof (cases "meshes w (obj_data rob)")
  case None
  with assms show ?thesis by (simp add: join_shapes_def)
next
  case (Some dme)
  let ?srcs = "List.map_filter (fitting h w (geometry dme)) (filter (\<lambda>s. s \<noteq> r) (selected w))"
  show ?thesis
  proof (cases "?srcs = []")
    case True
    with assms Some have "w' = w" by (simp add: join_shapes_def)
    then show ?thesis by (simp add: only_mesh_refl)
  next
    case False
    let ?k0 = "case shape_keys dme of
                 None \<Rightarrow> \<lparr>key_name = ''Key'',
                            key_blocks = [new_shape_key ''Basis'' (geometry dme)],
                            animation_data = None\<rparr>
               | Some k \<Rightarrow> k"
    let ?k1 = "?k0\<lparr>key_blocks := add_keys h ?srcs (key_blocks ?k0)\<rparr>"
    have w': "w' = w\<lparr>meshes := (meshes w)(obj_data rob \<mapsto> dme\<lparr>shape_keys := Some ?k1\<rparr>)\<rparr>"
      using assms Some False by (simp add: join_shapes_def Let_def)
    from add_keys_appends[of h ?srcs "key_blocks ?k0"] obtain ys where
      ys: "add_keys h ?srcs (key_blocks ?k0) = key_blocks ?k0 @ ys" by blast
    have k': "keys_of w' r = key_blocks ?k0 @ ys"
      by (simp add: w' keys_of_def assms(3) ys)
    have k: "\<exists>zs. key_blocks ?k0 = keys_of w r @ zs"
      by (cases "shape_keys dme") (simp_all add: keys_of_def assms(3) Some)
    then obtain zs where "key_blocks ?k0 = keys_of w r @ zs" by blast
    with k' have "keys_of w' r = keys_of w r @ (zs @ ys)" by simp
    then have "\<exists>ys. keys_of w' r = keys_of w r @ ys" by blast
    moreover have "only_mesh (obj_data rob) w w'" by (simp add: w' only_mesh_def)
    ultimately show ?thesis by simp
  qed
qed

lemma add_objs_shapekeys_result:
  assumes "add_objs_shapekeys h r [c] w = (Inr (), w')" and "c \<noteq> r" and "objects w r = Some rob"
  shows "only_mesh (obj_data rob) w w' \<and>
         length (keys_of w r) \<le> length (keys_of w' r) \<and>
         (\<forall>j<length (keys_of w r). keys_of w' r ! j = keys_of w r ! j)"
proof -
  from assms(1) obtain ob where c: "objects w c = Some ob"
    by (auto simp: add_objs_shapekeys_def select_set_true_def split: option.splits)
  let ?w2 = "w\<lparr>selected := [c], active := Some r\<rparr>"
  from assms(1) c obtain res where j: "join_shapes h ?w2 = (Inr res, w')"
    by (auto simp: add_objs_shapekeys_def select_set_true_def split: prod.splits sum.splits)
  have a: "active ?w2 = Some r" and o: "objects ?w2 r = Some rob" using assms(3) by simp_all
  have k: "keys_of ?w2 r = keys_of w r" by (rule keys_of_cong) simp_all
  from join_shapes_result[OF j a o] obtain ys where
    f: "only_mesh (obj_data rob) ?w2 w'" and e: "keys_of w' r = keys_of w r @ ys"
    unfolding k by blast
  from f have "only_mesh (obj_data rob) w w'" by (simp add: only_mesh_def)
  then show ?thesis by (simp add: e nth_append)
qed

lemma update_key_block_result:
  assumes "update_key_block r i f w = (Inr (), w')" and "objects w r = Some rob"
  shows "only_mesh (obj_data rob) w w' \<and> i < length (keys_of w r) \<and>
         keys_of w' r =
           (keys_of w r)[i := f (map sk_name (take i (keys_of w r) @ drop (Suc i) (keys_of w r)))
                                (keys_of w r ! i)]"
  using assms
  by (auto simp: update_key_block_def only_mesh_def keys_of_def Let_def
      split: option.splits if_splits)

lemma donor_step_InrE:
  assumes "donor_step h obj r i w = (Inr (), w')"
  obtains obj_sk c cs w1 w2 w3 w4 w5 bob where
    "key_block_at obj i w = Inr obj_sk"
    "copy_object obj 1 0 w = (Inr (c # cs), w1)"
    "apply_shapekey c (int i) w1 = (Inr (), w2)"
    "apply_modifiers h c w2 = (Inr (), w3)"
    "add_objs_shapekeys h r [c] w3 = (Inr (), w4)"
    "update_key_block r i (restore_metadata h obj_sk) w4 = (Inr (), w5)"
    "objects w5 c = Some bob"
    "w' = remove_mesh (obj_data bob) (remove_object c w5)"
  using assms unfolding donor_step_def
  by (auto split: sum.splits prod.splits list.splits option.splits)

lemma only_mesh_keys_of:
  assumes "only_mesh m w w'" and "objects w i = Some ob" and "obj_data ob \<noteq> m"
  shows "keys_of w' i = keys_of w i"
  using assms by (intro keys_of_cong) (auto simp: only_mesh_def)

lemma only_object_keys_of:
  assumes "only_object c m w w'" and "objects w i = Some ob" and "obj_data ob \<noteq> m" and "i \<noteq> c"
  shows "keys_of w' i = keys_of w i"
  using assms by (intro keys_of_cong) (auto simp: only_object_def)

lemma donor_step_result:
  assumes st: "donor_step h obj r i w = (Inr (), w')" and inv: "sk_inv obj ob r rob w"
  shows "sk_inv obj ob r rob w' \<and>
         meshes w' (obj_data ob) = meshes w (obj_data ob) \<and>
         i < length (keys_of w' r) \<and>
         restored (keys_of w obj ! i) (keys_of w' r ! i) \<and>
         length (keys_of w r) \<le> length (keys_of w' r) \<and>
         (\<forall>j. j \<noteq> i \<longrightarrow> j < length (keys_of w r) \<longrightarrow> keys_of w' r ! j = keys_of w r ! j) \<and>
         (\<forall>j. j < next_id w \<longrightarrow> objects w' j = objects w j) \<and>
         (\<forall>k. k < next_id w \<longrightarrow> k \<noteq> obj_data rob \<longrightarrow> meshes w' k = meshes w k) \<and>
         next_id w \<le> next_id w'"
proof -
  from inv have o: "objects w obj = Some ob" and r: "objects w r = Some rob"
    and ne: "obj \<noteq> r" and mne: "obj_data ob \<noteq> obj_data rob"
    and lt: "obj < next_id w" "r < next_id w" "obj_data ob < next_id w" "obj_data rob < next_id w"
    by (simp_all add: sk_inv_def)
  from st obtain obj_sk c cs w1 w2 w3 w4 w5 bob where s:
    "key_block_at obj i w = Inr obj_sk"
    "copy_object obj 1 0 w = (Inr (c # cs), w1)"
    "apply_shapekey c (int i) w1 = (Inr (), w2)"
    "apply_modifiers h c w2 = (Inr (), w3)"
    "add_objs_shapekeys h r [c] w3 = (Inr (), w4)"
    "update_key_block r i (restore_metadata h obj_sk) w4 = (Inr (), w5)"
    "objects w5 c = Some bob"
    "w' = remove_mesh (obj_data bob) (remove_object c w5)"
    by (rule donor_step_InrE)
  let ?c = "next_id w" and ?m = "Suc (next_id w)"
  from key_block_at_keys_of[OF s(1)] have sk: "obj_sk = keys_of w obj ! i" by simp
  from copy_object_result[OF s(2)] o obtain me nm where c1:
    "c = ?c" "meshes w (obj_data ob) = Some me"
    "objects w1 = (objects w)(?c \<mapsto> ob\<lparr>obj_data := ?m, obj_name := nm\<rparr>)"
    "meshes w1 = (meshes w)(?m \<mapsto> me)" "next_id w1 = next_id w + 2"
    by auto
  let ?cob = "ob\<lparr>obj_data := ?m, obj_name := nm\<rparr>"
  have oc1: "objects w1 c = Some ?cob" by (simp add: c1)
  have f2: "only_mesh ?m w1 w2"
    using apply_shapekey_frame[OF s(3) oc1] by simp
  have oc2: "objects w2 c = Some ?cob" using f2 oc1 by (simp add: only_mesh_def)
  have f3: "only_object c ?m w2 w3"
    using apply_modifiers_frame[OF s(4) oc2] by simp
  have cr: "c \<noteq> r" and co: "c \<noteq> obj" using lt c1(1) by simp_all
  have mr: "obj_data rob \<noteq> ?m" and mo: "obj_data ob \<noteq> ?m" using lt by simp_all
  have r1: "objects w1 r = Some rob" using r cr by (simp add: c1)
  have r2: "objects w2 r = Some rob" using f2 r1 by (simp add: only_mesh_def)
  have r3: "objects w3 r = Some rob" using f3 r2 cr by (simp add: only_object_def)
  have o1: "objects w1 obj = Some ob" using o co by (simp add: c1)
  have o2: "objects w2 obj = Some ob" using f2 o1 by (simp add: only_mesh_def)
  have o3: "objects w3 obj = Some ob" using f3 o2 co by (simp add: only_object_def)
  from add_objs_shapekeys_result[OF s(5) cr r3]
  have f4: "only_mesh (obj_data rob) w3 w4"
    and l4: "length (keys_of w3 r) \<le> length (keys_of w4 r)"
    and n4: "\<forall>j<length (keys_of w3 r). keys_of w4 r ! j = keys_of w3 r ! j"
    by simp_all
  have r4: "objects w4 r = Some rob" using f4 r3 by (simp add: only_mesh_def)
  have o4: "objects w4 obj = Some ob" using f4 o3 by (simp add: only_mesh_def)
  let ?taken = "map sk_name (take i (keys_of w4 r) @ drop (Suc i) (keys_of w4 r))"
  from update_key_block_result[OF s(6) r4]
  have f5: "only_mesh (obj_data rob) w4 w5"
    and l5: "i < length (keys_of w4 r)"
    and k5: "keys_of w5 r = (keys_of w4 r)[i := restore_metadata h obj_sk ?taken (keys_of w4 r ! i)]"
    by simp_all
  have r5: "objects w5 r = Some rob" using f5 r4 by (simp add: only_mesh_def)
  have o5: "objects w5 obj = Some ob" using f5 o4 by (simp add: only_mesh_def)
  have "map_option obj_data (objects w3 c) = Some ?m"
    using f3 oc2 by (simp add: only_object_def)
  then have "map_option obj_data (objects w5 c) = Some ?m"
    using f4 f5 by (simp add: only_mesh_def)
  then have bm: "obj_data bob = ?m" using s(7) by simp
  have ow: "objects w' = (objects w5)(c := None)"
    and mw: "meshes w' = (meshes w5)(?m := None)"
    and nw: "next_id w' = next_id w5"
    by (simp_all add: s(8) bm remove_mesh_def remove_object_def)
  have n5: "next_id w5 = next_id w + 2"
    using f2 f3 f4 f5 c1(5) by (simp add: only_mesh_def only_object_def)
  have kr1: "keys_of w1 r = keys_of w r"
    by (rule keys_of_cong) (use r cr mr in \<open>simp_all add: c1\<close>)
  have kr2: "keys_of w2 r = keys_of w1 r" by (rule only_mesh_keys_of[OF f2 r1 mr])
  have kr3: "keys_of w3 r = keys_of w2 r" by (rule only_object_keys_of[OF f3 r2 mr cr[symmetric]])
  have kr': "keys_of w' r = keys_of w5 r"
    by (rule keys_of_cong) (use r5 cr mr in \<open>simp_all add: ow mw\<close>)
  have k3: "keys_of w3 r = keys_of w r" by (simp only: kr3 kr2 kr1)
  have objs: "\<forall>j. j \<noteq> c \<longrightarrow> objects w5 j = objects w j"
    using f2 f3 f4 f5 by (simp add: only_mesh_def only_object_def c1)
  have mshs: "\<forall>k. k \<noteq> ?m \<longrightarrow> k \<noteq> obj_data rob \<longrightarrow> meshes w5 k = meshes w k"
    using f2 f3 f4 f5 by (simp add: only_mesh_def only_object_def c1)
  have 1: "sk_inv obj ob r rob w'"
    using o5 r5 co cr ne mne lt by (simp add: sk_inv_def ow nw n5)
  have 2: "meshes w' (obj_data ob) = meshes w (obj_data ob)"
    using mshs mo mne by (simp add: mw)
  have 3: "i < length (keys_of w' r)" by (simp add: kr' k5 l5)
  have 4: "restored (keys_of w obj ! i) (keys_of w' r ! i)"
    by (simp add: kr' k5 l5 restored_restore sk)
  have 5: "length (keys_of w r) \<le> length (keys_of w' r)"
    using l4 by (simp add: kr' k5 k3)
  have 6: "\<forall>j. j \<noteq> i \<longrightarrow> j < length (keys_of w r) \<longrightarrow> keys_of w' r ! j = keys_of w r ! j"
    using n4 by (simp add: kr' k5 k3)
  have 7: "\<forall>j. j < next_id w \<longrightarrow> objects w' j = objects w j"
    using objs by (simp add: ow c1(1))
  have 8: "\<forall>k. k < next_id w \<longrightarrow> k \<noteq> obj_data rob \<longrightarrow> meshes w' k = meshes w k"
    using mshs by (simp add: mw)
  have 9: "next_id w \<le> next_id w'" by (simp add: nw n5)
  from 1 2 3 4 5 6 7 8 9 show ?thesis by blast
qed

lemma sk_inv_keys_of_obj:
  assumes "sk_inv obj ob r rob w" and "sk_inv obj ob r rob w'"
    and "meshes w' (obj_data ob) = meshes w (obj_data ob)"
  shows "keys_of w' obj = keys_of w obj"
  using assms by (intro keys_of_cong) (auto simp: sk_inv_def)

lemma donor_loop_result:
  assumes "donor_loop h obj r is w = (Inr (), w')" and "sk_inv obj ob r rob w" and "distinct is"
  shows "sk_inv obj ob r rob w' \<and>
         meshes w' (obj_data ob) = meshes w (obj_data ob) \<and>
         (\<forall>i\<in>set is. i < length (keys_of w' r) \<and>
            restored (keys_of w obj ! i) (keys_of w' r ! i)) \<and>
         length (keys_of w r) \<le> length (keys_of w' r) \<and>
         (\<forall>j. j \<notin> set is \<longrightarrow> j < length (keys_of w r) \<longrightarrow> keys_of w' r ! j = keys_of w r ! j) \<and>
         (\<forall>j. j < next_id w \<longrightarrow> objects w' j = objects w j) \<and>
         (\<forall>k. k < next_id w \<longrightarrow> k \<noteq> obj_data rob \<longrightarrow> meshes w' k = meshes w k) \<and>
         next_id w \<le> next_id w'"
  using assms
proof (induction "is" arbitrary: w)
  case Nil
  then show ?case by simp
next
  case (Cons i rest)
  from Cons.prems(1) obtain w1 where
    st: "donor_step h obj r i w = (Inr (), w1)" and lp: "donor_loop h obj r rest w1 = (Inr (), w')"
    by (auto split: prod.splits sum.splits)
  from donor_step_result[OF st Cons.prems(2)]
  have a: "sk_inv obj ob r rob w1"
    "meshes w1 (obj_data ob) = meshes w (obj_data ob)"
    "i < length (keys_of w1 r)"
    "restored (keys_of w obj ! i) (keys_of w1 r ! i)"
    "length (keys_of w r) \<le> length (keys_of w1 r)"
    "\<forall>j. j \<noteq> i \<longrightarrow> j < length (keys_of w r) \<longrightarrow> keys_of w1 r ! j = keys_of w r ! j"
    "\<forall>j. j < next_id w \<longrightarrow> objects w1 j = objects w j"
    "\<forall>k. k < next_id w \<longrightarrow> k \<noteq> obj_data rob \<longrightarrow> meshes w1 k = meshes w k"
    "next_id w \<le> next_id w1"
    by simp_all
  have di: "distinct rest" and ni: "i \<notin> set rest" using Cons.prems(3) by simp_all
  from Cons.IH[OF lp a(1) di]
  have b: "sk_inv obj ob r rob w'"
    "meshes w' (obj_data ob) = meshes w1 (obj_data ob)"
    "\<forall>i\<in>set rest. i < length (keys_of w' r) \<and>
            restored (keys_of w1 obj ! i) (keys_of w' r ! i)"
    "length (keys_of w1 r) \<le> length (keys_of w' r)"
    "\<forall>j. j \<notin> set rest \<longrightarrow> j < length (keys_of w1 r) \<longrightarrow> keys_of w' r ! j = keys_of w1 r ! j"
    "\<forall>j. j < next_id w1 \<longrightarrow> objects w' j = objects w1 j"
    "\<forall>k. k < next_id w1 \<longrightarrow> k \<noteq> obj_data rob \<longrightarrow> meshes w' k = meshes w1 k"
    "next_id w1 \<le> next_id w'"
    by simp_all
  have ko: "keys_of w1 obj = keys_of w obj"
    by (rule sk_inv_keys_of_obj[OF Cons.prems(2) a(1) a(2)])
  have 2: "meshes w' (obj_data ob) = meshes w (obj_data ob)" by (simp add: b(2) a(2))
  have 3: "\<forall>x\<in>set (i # rest). x < length (keys_of w' r) \<and>
            restored (keys_of w obj ! x) (keys_of w' r ! x)"
  proof
    fix x assume "x \<in> set (i # rest)"
    then consider "x = i" | "x \<in> set rest" by auto
    then show "x < length (keys_of w' r) \<and>
            restored (keys_of w obj ! x) (keys_of w' r ! x)"
    proof cases
      case 1
      have "keys_of w' r ! i = keys_of w1 r ! i" using b(5) ni a(3) by simp
      with a(3) a(4) b(4) 1 show ?thesis by simp
    next
      case 2
      with b(3) ko show ?thesis by simp
    qed
  qed
  have 4: "length (keys_of w r) \<le> length (keys_of w' r)" using a(5) b(4) by simp
  have 5: "\<forall>j. j \<notin> set (i # rest) \<longrightarrow> j < length (keys_of w r) \<longrightarrow>
             keys_of w' r ! j = keys_of w r ! j"
  proof (intro allI impI)
    fix j assume j: "j \<notin> set (i # rest)" "j < length (keys_of w r)"
    then have "j < length (keys_of w1 r)" using a(5) by simp
    with j b(5) have "keys_of w' r ! j = keys_of w1 r ! j" by simp
    also have "\<dots> = keys_of w r ! j" using j a(6) by simp
    finally show "keys_of w' r ! j = keys_of w r ! j" .
  qed
  have 6: "\<forall>j. j < next_id w \<longrightarrow> objects w' j = objects w j"
    using a(7) a(9) b(6) by simp
  have 7: "\<forall>k. k < next_id w \<longrightarrow> k \<noteq> obj_data rob \<longrightarrow> meshes w' k = meshes w k"
    using a(8) a(9) b(7) by simp
  have 8: "next_id w \<le> next_id w'" using a(9) b(8) by simp
  from b(1) 2 3 4 5 6 7 8 show ?case by blast
qed

lemma skid_of_keys_of: "skid_of i w = Inr k \<Longrightarrow> key_blocks k = keys_of w i"
  by (auto simp: skid_of_def keys_of_def split: option.splits if_splits)

lemma set_skid_frame:
  "objects (set_skid i k w) = objects w"
  "next_id (set_skid i k w) = next_id w"
  "actions (set_skid i k w) = actions w"
  by (simp_all add: set_skid_def split: option.splits)

lemma set_skid_meshes:
  assumes "objects w i = Some ob" and "m \<noteq> obj_data ob"
  shows "meshes (set_skid i k w) m = meshes w m"
  using assms by (simp add: set_skid_def split: option.splits)

lemma set_skid_keys_of:
  assumes "key_blocks k = keys_of w i"
  shows "keys_of (set_skid i k w) j = keys_of w j"
proof (cases "objects w i")
  case None
  then show ?thesis by (simp add: set_skid_def)
next
  case (Some ob)
  show ?thesis
  proof (cases "meshes w (obj_data ob)")
    case None
    with Some show ?thesis by (simp add: set_skid_def)
  next
    case (Some me)
    have ki: "key_blocks k = (case shape_keys me of None \<Rightarrow> [] | Some k \<Rightarrow> key_blocks k)"
      using assms \<open>objects w i = Some ob\<close> Some by (simp add: keys_of_def)
    show ?thesis
    proof (cases "objects w j")
      case None
      then show ?thesis by (simp add: keys_of_def set_skid_frame)
    next
      case (Some obj)
      show ?thesis
        using ki \<open>objects w i = Some ob\<close> \<open>meshes w (obj_data ob) = Some me\<close> Some
        by (cases "obj_data obj = obj_data ob") (simp_all add: keys_of_def set_skid_def)
    qed
  qed
qed

lemma animation_data_create_key_blocks [simp]:
  "key_blocks (animation_data_create k) = key_blocks k"
  by (simp add: animation_data_create_def split: option.splits)

lemma copy_action_frame:
  assumes "copy_action a b w = (r, w')"
  shows "objects w' = objects w \<and> meshes w' = meshes w \<and> next_id w \<le> next_id w'"
  using assms by (auto simp: copy_action_def split: option.splits)

lemma keys_of_same_stores:
  "objects w' = objects w \<Longrightarrow> meshes w' = meshes w \<Longrightarrow> keys_of w' j = keys_of w j"
  by (rule keys_of_cong) simp_all

lemma transfer_animation_result:
  assumes "transfer_animation h obj r w = (Inr (), w')"
  shows "objects w' = objects w \<and> (\<forall>j. keys_of w' j = keys_of w j) \<and>
         next_id w \<le> next_id w' \<and>
         (\<forall>m ob rob. objects w obj = Some ob \<longrightarrow> objects w r = Some rob \<longrightarrow>
            m \<noteq> obj_data ob \<longrightarrow> m \<noteq> obj_data rob \<longrightarrow> meshes w' m = meshes w m)"
proof (cases "skid_of obj w")
  case (Inl e)
  with assms show ?thesis by (simp add: transfer_animation_def)
next
  case k0: (Inr k0)
  show ?thesis
  proof (cases "skid_of r w")
    case (Inl e)
    with k0 assms show ?thesis by (simp add: transfer_animation_def)
  next
    case k00: (Inr k00)
    let ?w1 = "set_skid obj (animation_data_create k0) w"
    show ?thesis
    proof (cases "skid_of r ?w1")
      case (Inl e)
      with k0 k00 assms show ?thesis by (simp add: transfer_animation_def Let_def)
    next
      case k1: (Inr k1)
      let ?sk = "animation_data_create k1"
      let ?w2 = "set_skid r ?sk ?w1"
      obtain ra w3 where ca:
        "copy_action (action (anim_of (animation_data_create k0))) (action (anim_of ?sk)) ?w2 = (ra, w3)"
        by (cases "copy_action (action (anim_of (animation_data_create k0))) (action (anim_of ?sk)) ?w2")
      show ?thesis
      proof (cases ra)
        case (Inl e)
        with k0 k00 k1 ca assms show ?thesis by (simp add: transfer_animation_def Let_def)
      next
        case (Inr act)
        let ?dst = "\<lparr>action = act,
             drivers = drivers (anim_of ?sk) @ map copy_driver (drivers (anim_of (animation_data_create k0))),
             nla_tracks = nla_tracks (anim_of ?sk) @
               map (copy_track h w3) (nla_tracks (anim_of (animation_data_create k0)))\<rparr>"
        have w': "w' = set_skid r (?sk\<lparr>animation_data := Some ?dst\<rparr>) w3"
          using k0 k00 k1 ca Inr assms by (simp add: transfer_animation_def Let_def)
        from copy_action_frame[OF ca]
        have f3: "objects w3 = objects ?w2" "meshes w3 = meshes ?w2" "next_id ?w2 \<le> next_id w3"
          by simp_all
        have kk1: "keys_of ?w1 j = keys_of w j" for j
          by (rule set_skid_keys_of) (simp add: skid_of_keys_of[OF k0])
        have kk2: "keys_of ?w2 j = keys_of ?w1 j" for j
          by (rule set_skid_keys_of) (simp add: skid_of_keys_of[OF k1])
        have kk3: "keys_of w3 j = keys_of ?w2 j" for j
          by (rule keys_of_same_stores[OF f3(1) f3(2)])
        have kk4: "keys_of w' j = keys_of w3 j" for j
          unfolding w' by (rule set_skid_keys_of) (simp add: kk3 kk2 skid_of_keys_of[OF k1])
        have 1: "objects w' = objects w" by (simp add: w' set_skid_frame f3)
        have 2: "\<forall>j. keys_of w' j = keys_of w j" by (simp add: kk4 kk3 kk2 kk1)
        have 3: "next_id w \<le> next_id w'" using f3(3) by (simp add: w' set_skid_frame)
        have 4: "\<forall>m ob rob. objects w obj = Some ob \<longrightarrow> objects w r = Some rob \<longrightarrow>
            m \<noteq> obj_data ob \<longrightarrow> m \<noteq> obj_data rob \<longrightarrow> meshes w' m = meshes w m"
        proof (intro allI impI)
          fix m ob rob
          assume h: "objects w obj = Some ob" "objects w r = Some rob"
            "m \<noteq> obj_data ob" "m \<noteq> obj_data rob"
          have "meshes w' m = meshes w3 m"
            unfolding w' by (rule set_skid_meshes[of _ _ rob]) (simp_all add: f3 set_skid_frame h)
          also have "\<dots> = meshes ?w1 m"
            unfolding f3(2) by (rule set_skid_meshes[of _ _ rob]) (simp_all add: set_skid_frame h)
          also have "\<dots> = meshes w m"
            by (rule set_skid_meshes[of _ _ ob]) (simp_all add: h)
          finally show "meshes w' m = meshes w m" .
        qed
        from 1 2 3 4 show ?thesis by blast
      qed
    qed
  qed
qed

lemma make_receiver_InrE:
  assumes "make_receiver h obj w = (Inr r, w4)"
  obtains cs w1 rob1 w3 where
    "copy_object obj 1 0 w = (Inr (r # cs), w1)"
    "objects w1 r = Some rob1"
    "apply_shapekey r 0 (w1\<lparr>objects := (objects w1)(r \<mapsto> rob1\<lparr>obj_name := ''sk_receiver''\<rparr>)\<rparr>) = (Inr (), w3)"
    "apply_modifiers h r w3 = (Inr (), w4)"
  using assms unfolding make_receiver_def Let_def
  by (auto split: sum.splits prod.splits list.splits option.splits)

lemma make_receiver_result:
  assumes mr: "make_receiver h obj w = (Inr r, w4)" and o: "objects w obj = Some ob"
    and lt: "obj < next_id w" "obj_data ob < next_id w"
  shows "r = next_id w \<and>
         (\<exists>rob. sk_inv obj ob r rob w4 \<and> obj_data rob = Suc (next_id w)) \<and>
         meshes w4 (obj_data ob) = meshes w (obj_data ob) \<and>
         (\<forall>j. j < next_id w \<longrightarrow> objects w4 j = objects w j) \<and>
         (\<forall>k. k < next_id w \<longrightarrow> meshes w4 k = meshes w k) \<and>
         next_id w + 2 \<le> next_id w4"
proof -
  from mr obtain cs w1 rob1 w3 where s:
    "copy_object obj 1 0 w = (Inr (r # cs), w1)"
    "objects w1 r = Some rob1"
    "apply_shapekey r 0 (w1\<lparr>objects := (objects w1)(r \<mapsto> rob1\<lparr>obj_name := ''sk_receiver''\<rparr>)\<rparr>) = (Inr (), w3)"
    "apply_modifiers h r w3 = (Inr (), w4)"
    by (rule make_receiver_InrE)
  let ?c = "next_id w" and ?m = "Suc (next_id w)"
  from copy_object_result[OF s(1)] o obtain me nm where c1:
    "r = ?c" "meshes w (obj_data ob) = Some me"
    "objects w1 = (objects w)(?c \<mapsto> ob\<lparr>obj_data := ?m, obj_name := nm\<rparr>)"
    "meshes w1 = (meshes w)(?m \<mapsto> me)" "next_id w1 = next_id w + 2"
    by auto
  have rob1: "rob1 = ob\<lparr>obj_data := ?m, obj_name := nm\<rparr>" using s(2) by (simp add: c1)
  let ?rob = "rob1\<lparr>obj_name := ''sk_receiver''\<rparr>"
  let ?w2 = "w1\<lparr>objects := (objects w1)(r \<mapsto> ?rob)\<rparr>"
  have d: "obj_data ?rob = ?m" by (simp add: rob1)
  have or2: "objects ?w2 r = Some ?rob" by simp
  have f3: "only_mesh ?m ?w2 w3"
    using apply_shapekey_frame[OF s(3) or2] d by simp
  have or3: "objects w3 r = Some ?rob" using f3 by (simp add: only_mesh_def)
  have f4: "only_object r ?m w3 w4"
    using apply_modifiers_frame[OF s(4) or3] d by simp
  from only_object_live[OF f4 or3] obtain rob where
    or4: "objects w4 r = Some rob" and d4: "obj_data rob = ?m" using d by auto
  have ne: "obj \<noteq> r" using lt c1(1) by simp
  have oo: "objects w4 obj = Some ob"
    using f4 f3 ne o by (simp add: only_object_def only_mesh_def c1)
  have n4: "next_id w4 = next_id w + 2"
    using f4 f3 c1(5) by (simp add: only_object_def only_mesh_def)
  have inv: "sk_inv obj ob r rob w4"
    using oo or4 ne lt d4 by (simp add: sk_inv_def n4 c1(1))
  have objs: "\<forall>j. j < next_id w \<longrightarrow> objects w4 j = objects w j"
    using f4 f3 by (simp add: only_object_def only_mesh_def c1)
  have mshs: "\<forall>k. k < next_id w \<longrightarrow> meshes w4 k = meshes w k"
    using f4 f3 by (simp add: only_object_def only_mesh_def c1)
  have 3: "meshes w4 (obj_data ob) = meshes w (obj_data ob)" using mshs lt by simp
  have 6: "next_id w + 2 \<le> next_id w4" by (simp add: n4)
  from c1(1) inv d4 3 objs mshs 6 show ?thesis by blast
qed

lemma replace_original_result:
  assumes ro: "replace_original obj r nm w = (Inr (), w')" and inv: "sk_inv obj ob r rob w"
  shows "objects w' r = Some (rob\<lparr>obj_name := obj_name ob\<rparr>) \<and>
         keys_of w' r = keys_of w r \<and>
         objects w' obj = None \<and>
         (\<forall>j. j \<noteq> obj \<longrightarrow> j \<noteq> r \<longrightarrow> objects w' j = objects w j) \<and>
         (\<forall>k. k \<noteq> obj_data ob \<longrightarrow> k \<noteq> obj_data rob \<longrightarrow> meshes w' k = meshes w k) \<and>
         next_id w' = next_id w"
proof -
  from inv have o: "objects w obj = Some ob" and r: "objects w r = Some rob"
    and ne: "obj \<noteq> r" and mne: "obj_data ob \<noteq> obj_data rob"
    by (simp_all add: sk_inv_def)
  let ?w1 = "remove_mesh (obj_data ob) (remove_object obj w)"
  have o1: "objects ?w1 = (objects w)(obj := None)"
    and m1: "meshes ?w1 = (meshes w)(obj_data ob := None)"
    and n1: "next_id ?w1 = next_id w"
    by (simp_all add: remove_mesh_def remove_object_def)
  from ro o obtain skid where sk: "skid_of r ?w1 = Inr skid"
    by (auto simp: replace_original_def Let_def split: sum.splits)
  let ?w2 = "set_skid r (skid\<lparr>key_name := nm\<rparr>) ?w1"
  have r1: "objects ?w1 r = Some rob" using r ne by (simp add: o1)
  have r2: "objects ?w2 r = Some rob" by (simp add: set_skid_frame r1)
  have w': "w' = ?w2\<lparr>objects := (objects ?w2)(r \<mapsto> rob\<lparr>obj_name := obj_name ob\<rparr>)\<rparr>"
    using ro o sk r2 by (simp add: replace_original_def Let_def)
  have k1: "keys_of ?w1 r = keys_of w r"
    by (rule keys_of_cong) (use r ne mne in \<open>simp_all add: o1 m1\<close>)
  have k2: "keys_of ?w2 r = keys_of ?w1 r"
    by (rule set_skid_keys_of) (simp add: skid_of_keys_of[OF sk])
  have k3: "keys_of w' r = keys_of ?w2 r"
    unfolding w' using r2 by (simp add: keys_of_def)
  have 1: "objects w' r = Some (rob\<lparr>obj_name := obj_name ob\<rparr>)" by (simp add: w')
  have 2: "keys_of w' r = keys_of w r" by (simp only: k3 k2 k1)
  have 3: "objects w' obj = None" using ne by (simp add: w' set_skid_frame o1)
  have 4: "\<forall>j. j \<noteq> obj \<longrightarrow> j \<noteq> r \<longrightarrow> objects w' j = objects w j"
    by (simp add: w' set_skid_frame o1)
  have 5: "\<forall>k. k \<noteq> obj_data ob \<longrightarrow> k \<noteq> obj_data rob \<longrightarrow> meshes w' k = meshes w k"
  proof (intro allI impI)
    fix k assume k: "k \<noteq> obj_data ob" "k \<noteq> obj_data rob"
    have "meshes w' k = meshes ?w2 k" by (simp add: w')
    also have "\<dots> = meshes ?w1 k" by (rule set_skid_meshes[OF r1 k(2)])
    also have "\<dots> = meshes w k" using k(1) by (simp add: m1)
    finally show "meshes w' k = meshes w k" .
  qed
  have 6: "next_id w' = next_id w" by (simp add: w' set_skid_frame n1)
  from 1 2 3 4 5 6 show ?thesis by blast
qed

lemma with_sk_object_InrE:
  assumes "with_sk_object h obj w = (Inr (), w')" and "objects w obj = Some ob"
    and "meshes w (obj_data ob) = Some me" and "shape_keys me = Some k"
  obtains r w1 n w2 ob2 w3 where
    "make_receiver h obj w = (Inr r, w1)"
    "shapekeys_len obj w1 = Inr n"
    "donor_loop h obj r [1..<n] w1 = (Inr (), w2)"
    "objects w2 obj = Some ob2"
    "transfer_animation h obj r w2 = (Inr (), w3)"
    "replace_original obj r (obj_name ob2 @ ''.SK'') w3 = (Inr (), w')"
  using assms unfolding with_sk_object_def
  by (auto split: sum.splits prod.splits option.splits)

lemma with_sk_object_result:
  assumes body: "with_sk_object h obj w = (Inr (), w')" and o: "objects w obj = Some ob"
    and me: "meshes w (obj_data ob) = Some me" and k: "shape_keys me = Some k"
    and lt: "obj < next_id w" "obj_data ob < next_id w"
  shows "(\<exists>rob. objects w' (next_id w) = Some rob \<and> obj_name rob = obj_name ob \<and>
            obj_data rob = Suc (next_id w)) \<and>
         (\<forall>i. 0 < i \<longrightarrow> i < length (key_blocks k) \<longrightarrow>
            i < length (keys_of w' (next_id w)) \<and>
            restored (key_blocks k ! i) (keys_of w' (next_id w) ! i)) \<and>
         objects w' obj = None \<and>
         (\<forall>j. j < next_id w \<longrightarrow> j \<noteq> obj \<longrightarrow> objects w' j = objects w j) \<and>
         (\<forall>m. m < next_id w \<longrightarrow> m \<noteq> obj_data ob \<longrightarrow> meshes w' m = meshes w m) \<and>
         next_id w + 2 \<le> next_id w'"
proof -
  from body o me k obtain r w1 n w2 ob2 w3 where s:
    "make_receiver h obj w = (Inr r, w1)"
    "shapekeys_len obj w1 = Inr n"
    "donor_loop h obj r [1..<n] w1 = (Inr (), w2)"
    "objects w2 obj = Some ob2"
    "transfer_animation h obj r w2 = (Inr (), w3)"
    "replace_original obj r (obj_name ob2 @ ''.SK'') w3 = (Inr (), w')"
    by (rule with_sk_object_InrE)
  from make_receiver_result[OF s(1) o lt] obtain rob where a:
    "r = next_id w" "sk_inv obj ob r rob w1" "obj_data rob = Suc (next_id w)"
    "meshes w1 (obj_data ob) = meshes w (obj_data ob)"
    "\<forall>j. j < next_id w \<longrightarrow> objects w1 j = objects w j"
    "\<forall>k. k < next_id w \<longrightarrow> meshes w1 k = meshes w k"
    "next_id w + 2 \<le> next_id w1"
    by blast
  have ko1: "keys_of w1 obj = key_blocks k"
    using a(2) a(4) me k by (simp add: keys_of_def sk_inv_def)
  have n: "n = length (key_blocks k)"
    using shapekeys_len_keys_of[OF s(2)] ko1 by simp
  have di: "distinct [1..<n]" by simp
  from donor_loop_result[OF s(3) a(2) di]
  have b: "sk_inv obj ob r rob w2"
    "meshes w2 (obj_data ob) = meshes w1 (obj_data ob)"
    "\<forall>i\<in>set [1..<n]. i < length (keys_of w2 r) \<and>
            restored (keys_of w1 obj ! i) (keys_of w2 r ! i)"
    "\<forall>j. j < next_id w1 \<longrightarrow> objects w2 j = objects w1 j"
    "\<forall>k. k < next_id w1 \<longrightarrow> k \<noteq> obj_data rob \<longrightarrow> meshes w2 k = meshes w1 k"
    "next_id w1 \<le> next_id w2"
    by simp_all
  from b(1) have o2: "objects w2 obj = Some ob" and r2: "objects w2 r = Some rob"
    by (simp_all add: sk_inv_def)
  from transfer_animation_result[OF s(5)]
  have c: "objects w3 = objects w2" "\<forall>j. keys_of w3 j = keys_of w2 j"
    "next_id w2 \<le> next_id w3"
    "\<forall>m ob rob. objects w2 obj = Some ob \<longrightarrow> objects w2 r = Some rob \<longrightarrow>
            m \<noteq> obj_data ob \<longrightarrow> m \<noteq> obj_data rob \<longrightarrow> meshes w3 m = meshes w2 m"
    by simp_all
  have inv3: "sk_inv obj ob r rob w3"
    using b(1) c(1) c(3) by (simp add: sk_inv_def)
  from replace_original_result[OF s(6) inv3]
  have d: "objects w' r = Some (rob\<lparr>obj_name := obj_name ob\<rparr>)"
    "keys_of w' r = keys_of w3 r" "objects w' obj = None"
    "\<forall>j. j \<noteq> obj \<longrightarrow> j \<noteq> r \<longrightarrow> objects w' j = objects w3 j"
    "\<forall>k. k \<noteq> obj_data ob \<longrightarrow> k \<noteq> obj_data rob \<longrightarrow> meshes w' k = meshes w3 k"
    "next_id w' = next_id w3"
    by simp_all
  have kr: "keys_of w' r = keys_of w2 r" using d(2) c(2) by simp
  have 1: "\<exists>rob. objects w' (next_id w) = Some rob \<and> obj_name rob = obj_name ob \<and>
            obj_data rob = Suc (next_id w)"
    using d(1) a(1) a(3) by simp
  have 2: "\<forall>i. 0 < i \<longrightarrow> i < length (key_blocks k) \<longrightarrow>
            i < length (keys_of w' (next_id w)) \<and>
            restored (key_blocks k ! i) (keys_of w' (next_id w) ! i)"
    using b(3) by (simp add: kr[unfolded a(1)] a(1) ko1 n)
  have 4: "\<forall>j. j < next_id w \<longrightarrow> j \<noteq> obj \<longrightarrow> objects w' j = objects w j"
  proof (intro allI impI)
    fix j assume j: "j < next_id w" "j \<noteq> obj"
    then have "objects w' j = objects w3 j" using d(4) a(1) by simp
    also have "\<dots> = objects w1 j" using c(1) b(4) j(1) a(7) by simp
    also have "\<dots> = objects w j" using a(5) j(1) by simp
    finally show "objects w' j = objects w j" .
  qed
  have 5: "\<forall>m. m < next_id w \<longrightarrow> m \<noteq> obj_data ob \<longrightarrow> meshes w' m = meshes w m"
  proof (intro allI impI)
    fix m assume m: "m < next_id w" "m \<noteq> obj_data ob"
    then have mr: "m \<noteq> obj_data rob" using a(3) by simp
    have "meshes w' m = meshes w3 m" using d(5) m(2) mr by simp
    also have "\<dots> = meshes w2 m" using c(4) o2 r2 m(2) mr by simp
    also have "\<dots> = meshes w1 m" using b(5) m(1) a(7) mr by simp
    also have "\<dots> = meshes w m" using a(6) m(1) by simp
    finally show "meshes w' m = meshes w m" .
  qed
  have 6: "next_id w + 2 \<le> next_id w'" using a(7) b(6) c(3) d(6) by simp
  from 1 2 d(3) 4 5 6 show ?thesis by blast
qed

lemma with_sk_object_frame:
  assumes body: "with_sk_object h obj w = (Inr (), w')" and o: "objects w obj = Some ob"
    and lt: "obj < next_id w" "obj_data ob < next_id w"
  shows "(\<forall>j. j < next_id w \<longrightarrow> j \<noteq> obj \<longrightarrow> objects w' j = objects w j) \<and>
         (\<forall>m. m < next_id w \<longrightarrow> m \<noteq> obj_data ob \<longrightarrow> meshes w' m = meshes w m) \<and>
         next_id w \<le> next_id w'"
proof (cases "meshes w (obj_data ob)")
  case None
  with body o show ?thesis by (simp add: with_sk_object_def)
next
  case (Some me)
  show ?thesis
  proof (cases "shape_keys me")
    case None
    with body o Some have "apply_modifiers h obj w = (Inr (), w')"
      by (simp add: with_sk_object_def)
    from apply_modifiers_frame[OF this o] show ?thesis
      by (simp add: only_object_def)
  next
    case (Some k)
    from with_sk_object_result[OF body o \<open>meshes w (obj_data ob) = Some me\<close> Some lt]
    show ?thesis by simp
  qed
qed

lemma batch_fresh_step:
  assumes bf: "batch_fresh w (obj # rest)"
    and f: "\<forall>j. j < next_id w \<longrightarrow> j \<noteq> obj \<longrightarrow> objects w1 j = objects w j"
    and n: "next_id w \<le> next_id w1"
  shows "batch_fresh w1 rest \<and> map (data_of w1) rest = map (data_of w) rest"
proof -
  have d: "data_of w1 i = data_of w i" if "i \<in> set rest" for i
  proof -
    from bf that have "i \<noteq> obj" "i < next_id w" by (auto simp: batch_fresh_def)
    with f show ?thesis by (simp add: data_of_def)
  qed
  then have m: "map (data_of w1) rest = map (data_of w) rest" by simp
  have "\<forall>i\<in>set rest. objects w1 i \<noteq> None \<and> i < next_id w1 \<and> data_of w1 i < next_id w1"
  proof
    fix i assume i: "i \<in> set rest"
    with bf have a: "i \<noteq> obj" "i < next_id w" "objects w i \<noteq> None" "data_of w i < next_id w"
      by (auto simp: batch_fresh_def)
    with f have "objects w1 i = objects w i" by simp
    with a n d[OF i] show "objects w1 i \<noteq> None \<and> i < next_id w1 \<and> data_of w1 i < next_id w1"
      by simp
  qed
  moreover have "distinct rest" "distinct (map (data_of w) rest)"
    using bf by (simp_all add: batch_fresh_def)
  ultimately have "batch_fresh w1 rest" by (simp add: batch_fresh_def m)
  with m show ?thesis by simp
qed

lemma batch_result:
  assumes "apply_all_modifiers_with_sk h objs w = (Inr (), w')" and "batch_fresh w objs"
  shows "(\<forall>j. j < next_id w \<longrightarrow> j \<notin> set objs \<longrightarrow> objects w' j = objects w j) \<and>
         (\<forall>m. m < next_id w \<longrightarrow> m \<notin> set (map (data_of w) objs) \<longrightarrow> meshes w' m = meshes w m) \<and>
         next_id w \<le> next_id w' \<and>
         (\<forall>obj\<in>set objs. received w w' obj)"
  using assms
proof (induction objs arbitrary: w)
  case Nil
  then show ?case by simp
next
  case (Cons obj rest)
  from Cons.prems(1) obtain w1 where
    body: "with_sk_object h obj w = (Inr (), w1)"
    and lp: "apply_all_modifiers_with_sk h rest w1 = (Inr (), w')"
    by (auto split: prod.splits sum.splits)
  from Cons.prems(2) obtain ob where o: "objects w obj = Some ob"
    and lt: "obj < next_id w" "obj_data ob < next_id w"
    by (auto simp: batch_fresh_def data_of_def)
  have dob: "data_of w obj = obj_data ob" by (simp add: data_of_def o)
  from with_sk_object_frame[OF body o lt]
  have f1: "\<forall>j. j < next_id w \<longrightarrow> j \<noteq> obj \<longrightarrow> objects w1 j = objects w j"
    "\<forall>m. m < next_id w \<longrightarrow> m \<noteq> obj_data ob \<longrightarrow> meshes w1 m = meshes w m"
    "next_id w \<le> next_id w1"
    by simp_all
  from batch_fresh_step[OF Cons.prems(2) f1(1) f1(3)]
  have bf1: "batch_fresh w1 rest" and dm: "map (data_of w1) rest = map (data_of w) rest"
    by simp_all
  from Cons.IH[OF lp bf1]
  have f2: "\<forall>j. j < next_id w1 \<longrightarrow> j \<notin> set rest \<longrightarrow> objects w' j = objects w1 j"
    "\<forall>m. m < next_id w1 \<longrightarrow> m \<notin> set (map (data_of w1) rest) \<longrightarrow> meshes w' m = meshes w1 m"
    "next_id w1 \<le> next_id w'"
    "\<forall>x\<in>set rest. received w1 w' x"
    by simp_all
  have rest_lt: "\<forall>x\<in>set rest. x < next_id w \<and> data_of w x < next_id w \<and> x \<noteq> obj \<and>
      data_of w x \<noteq> obj_data ob"
    using Cons.prems(2) dob by (auto simp: batch_fresh_def image_iff)
  have 1: "\<forall>j. j < next_id w \<longrightarrow> j \<notin> set (obj # rest) \<longrightarrow> objects w' j = objects w j"
    using f1(1) f1(3) f2(1) by simp
  have 2: "\<forall>m. m < next_id w \<longrightarrow> m \<notin> set (map (data_of w) (obj # rest)) \<longrightarrow>
             meshes w' m = meshes w m"
    using f1(2) f1(3) f2(2) dm dob by simp
  have 3: "next_id w \<le> next_id w'" using f1(3) f2(3) by simp
  have 4: "\<forall>x\<in>set (obj # rest). received w w' x"
  proof
    fix x assume "x \<in> set (obj # rest)"
    then consider "x = obj" | "x \<in> set rest" by auto
    then show "received w w' x"
    proof cases
      case 1
      show ?thesis
        unfolding received_def 1
      proof (intro allI impI)
        fix ob' me k
        assume h: "objects w obj = Some ob'" "meshes w (obj_data ob') = Some me"
          "shape_keys me = Some k"
        have e: "ob' = ob" using h(1) o by simp
        from with_sk_object_result[OF body o h(2)[unfolded e] h(3) lt] obtain rob where r:
          "objects w1 (next_id w) = Some rob" "obj_name rob = obj_name ob"
          "obj_data rob = Suc (next_id w)"
          "\<forall>i. 0 < i \<longrightarrow> i < length (key_blocks k) \<longrightarrow>
            i < length (keys_of w1 (next_id w)) \<and>
            restored (key_blocks k ! i) (keys_of w1 (next_id w) ! i)"
          "next_id w + 2 \<le> next_id w1"
          by blast
        have nr: "next_id w \<notin> set rest" using rest_lt by auto
        have nm: "Suc (next_id w) \<notin> set (map (data_of w1) rest)"
          unfolding dm using rest_lt by auto
        have o': "objects w' (next_id w) = objects w1 (next_id w)"
          using f2(1) r(5) nr by simp
        have m': "meshes w' (Suc (next_id w)) = meshes w1 (Suc (next_id w))"
          using f2(2) r(5) nm by simp
        have kk: "keys_of w' (next_id w) = keys_of w1 (next_id w)"
          by (rule keys_of_cong[OF o']) (simp add: r(1) r(3) m')
        show "\<exists>rid rob. next_id w \<le> rid \<and> objects w' rid = Some rob \<and>
           obj_name rob = obj_name ob' \<and>
           (\<forall>i. 0 < i \<longrightarrow> i < length (key_blocks k) \<longrightarrow>
              i < length (keys_of w' rid) \<and>
              restored (key_blocks k ! i) (keys_of w' rid ! i))"
          using r(1) r(2) r(4) by (intro exI[of _ "next_id w"] exI[of _ rob]) (simp add: o' kk e)
      qed
    next
      case 2
      with rest_lt have xl: "x < next_id w" "data_of w x < next_id w" "x \<noteq> obj"
        "data_of w x \<noteq> obj_data ob" by simp_all
      have ox: "objects w1 x = objects w x" using f1(1) xl by simp
      from f2(4) 2 have rx: "received w1 w' x" by simp
      show ?thesis
        unfolding received_def
      proof (intro allI impI)
        fix ob' me k
        assume h: "objects w x = Some ob'" "meshes w (obj_data ob') = Some me"
          "shape_keys me = Some k"
        have dx: "data_of w x = obj_data ob'" by (simp add: data_of_def h(1))
        have mx: "meshes w1 (obj_data ob') = Some me"
          using f1(2) xl dx h(2) by simp
        from rx[unfolded received_def, rule_format, OF ox[unfolded h(1)] mx h(3)]
        obtain rid rob where r: "next_id w1 \<le> rid" "objects w' rid = Some rob"
          "obj_name rob = obj_name ob'"
          "\<forall>i. 0 < i \<longrightarrow> i < length (key_blocks k) \<longrightarrow>
              i < length (keys_of w' rid) \<and>
              restored (key_blocks k ! i) (keys_of w' rid ! i)"
          by blast
        show "\<exists>rid rob. next_id w \<le> rid \<and> objects w' rid = Some rob \<and>
           obj_name rob = obj_name ob' \<and>
           (\<forall>i. 0 < i \<longrightarrow> i < length (key_blocks k) \<longrightarrow>
              i < length (keys_of w' rid) \<and>
              restored (key_blocks k ! i) (keys_of w' rid ! i))"
          using r f1(3) by (intro exI[of _ rid] exI[of _ rob]) simp
      qed
    qed
  qed
  from 1 2 3 4 show ?case by blast
qed

lemma pose_only_refl: "pose_only w w"
  by (simp add: pose_only_def)

lemma pose_only_trans: "pose_only w w1 \<Longrightarrow> pose_only w1 w2 \<Longrightarrow> pose_only w w2"
  by (simp add: pose_only_def)

lemma reset_pose_frame: "reset_pose a w = (r, w') \<Longrightarrow> pose_only w w'"
  by (auto simp: reset_pose_def pose_only_def split: option.splits)

lemma reset_armature_loop_frame:
  "reset_armature_loop objs p w = (r, w') \<Longrightarrow> pose_only w w'"
proof (induction objs arbitrary: p w)
  case Nil
  then show ?case by (simp add: pose_only_refl)
next
  case (Cons obj rest)
  show ?case
  proof (cases "objects w obj")
    case None
    with Cons.prems show ?thesis by (simp add: pose_only_refl)
  next
    case ob: (Some ob)
    show ?thesis
    proof (cases "find (\<lambda>m. mod_type m = ''ARMATURE'' \<and> mod_object m \<noteq> None) (modifiers ob)")
      case None
      with Cons.prems ob have "reset_armature_loop rest p w = (r, w')" by simp
      then show ?thesis by (rule Cons.IH)
    next
      case arm: (Some armature)
      show ?thesis
      proof (cases "mod_object armature")
        case None
        with Cons.prems ob arm have "reset_armature_loop rest p w = (r, w')" by simp
        then show ?thesis by (rule Cons.IH)
      next
        case a: (Some a)
        show ?thesis
        proof (cases "ObjectRef a \<in> set p")
          case True
          with Cons.prems ob arm a have "reset_armature_loop rest p w = (r, w')" by simp
          then show ?thesis by (rule Cons.IH)
        next
          case False
          obtain r1 w1 where rp: "reset_pose a w = (r1, w1)" by (cases "reset_pose a w")
          have f1: "pose_only w w1" by (rule reset_pose_frame[OF rp])
          show ?thesis
          proof (cases r1)
            case (Inl e)
            with Cons.prems ob arm a False rp have "w' = w1" by simp
            with f1 show ?thesis by simp
          next
            case (Inr u)
            with Cons.prems ob arm a False rp
            have "reset_armature_loop rest (p @ [ModifierRef obj (mod_name armature)]) w1 = (r, w')"
              by simp
            then have "pose_only w1 w'" by (rule Cons.IH)
            with f1 show ?thesis by (rule pose_only_trans)
          qed
        qed
      qed
    qed
  qed
qed

lemma filterE_Inr_filter:
  "filterE p xs = Inr ys \<Longrightarrow> ys = filter (\<lambda>x. p x = Inr True) xs"
  by (induction xs arbitrary: ys) (auto split: sum.splits if_splits)

lemma pose_only_data_of: "pose_only w w1 \<Longrightarrow> data_of w1 = data_of w"
proof
  fix i assume p: "pose_only w w1"
  then have "map_option obj_data (objects w1 i) = map_option obj_data (objects w i)"
    by (simp add: pose_only_def)
  then show "data_of w1 i = data_of w i"
    by (cases "objects w1 i"; cases "objects w i") (simp_all add: data_of_def)
qed

lemma pose_only_batch_fresh:
  assumes "pose_only w w1" and "batch_fresh w objs"
  shows "batch_fresh w1 objs"
proof -
  have l: "(objects w1 i = None) = (objects w i = None)" for i
    using assms(1)[unfolded pose_only_def, THEN conjunct2, THEN conjunct2, rule_format, of i]
    by (cases "objects w1 i"; cases "objects w i") simp_all
  have n: "next_id w1 = next_id w" using assms(1) by (simp add: pose_only_def)
  show ?thesis
    using assms(2) by (simp add: batch_fresh_def pose_only_data_of[OF assms(1)] l n)
qed

lemma pose_only_received:
  assumes p: "pose_only w w1" and r: "received w1 w' obj"
  shows "received w w' obj"
  unfolding received_def
proof (intro allI impI)
  fix ob me k
  assume h: "objects w obj = Some ob" "meshes w (obj_data ob) = Some me" "shape_keys me = Some k"
  from p have q: "map_option obj_name (objects w1 obj) = map_option obj_name (objects w obj)"
    "map_option obj_data (objects w1 obj) = map_option obj_data (objects w obj)"
    and m: "meshes w1 = meshes w" and n: "next_id w1 = next_id w"
    by (simp_all add: pose_only_def)
  from q h(1) obtain ob1 where o1: "objects w1 obj = Some ob1"
    and e: "obj_name ob1 = obj_name ob" "obj_data ob1 = obj_data ob"
    by (cases "objects w1 obj") auto
  have m1: "meshes w1 (obj_data ob1) = Some me" using h(2) by (simp add: m e)
  from r[unfolded received_def, rule_format, OF o1 m1 h(3)]
  show "\<exists>rid rob. next_id w \<le> rid \<and> objects w' rid = Some rob \<and>
           obj_name rob = obj_name ob \<and>
           (\<forall>i. 0 < i \<longrightarrow> i < length (key_blocks k) \<longrightarrow>
              i < length (keys_of w' rid) \<and>
              restored (key_blocks k ! i) (keys_of w' rid ! i))"
    by (simp add: n e)
qed

lemma apply_mods_execute_InrE:
  assumes "apply_mods_execute h ALL_MODIFIERS_WITH_SHAPEKEYS do_reset w = (Inr FINISHED, w')"
  obtains w1 where "pose_only w w1"
    "apply_all_modifiers_with_sk h (mesh_selection w) w1 = (Inr (), w')"
proof -
  from assms obtain objs where f: "filterE (is_mesh w) (selected w) = Inr objs"
    by (auto simp: apply_mods_execute_def split: sum.splits)
  have objs: "objs = mesh_selection w"
    unfolding mesh_selection_def by (rule filterE_Inr_filter[OF f])
  from assms f have ne: "objs \<noteq> []"
    by (auto simp: apply_mods_execute_def)
  obtain r1 w1 where rs:
    "(if do_reset then reset_armature_pose objs w else (Inr (), w)) = (r1, w1)"
    by (cases "if do_reset then reset_armature_pose objs w else (Inr (), w)")
  have p: "pose_only w w1"
  proof (cases do_reset)
    case False
    with rs show ?thesis by (simp add: pose_only_refl)
  next
    case True
    obtain r0 w0 where l: "reset_armature_loop objs [] w = (r0, w0)"
      by (cases "reset_armature_loop objs [] w")
    from True rs l have "w1 = w0"
      by (auto simp: reset_armature_pose_def split: sum.splits)
    with reset_armature_loop_frame[OF l] show ?thesis by simp
  qed
  from assms f ne rs have "apply_all_modifiers_with_sk h objs w1 = (Inr (), w')"
    by (auto simp: apply_mods_execute_def split: sum.splits prod.splits)
  with p objs that show ?thesis by simp
qed

text \<open>
  What the reassembly does restore. Apply Modifiers with action
  ALL_MODIFIERS_WITH_SHAPEKEYS has finished on a selection whose mesh objects
  are a batch as the host hands it over. Then for every selected mesh with shape
  keys, and every non-basis key of it at index \<open>i\<close>, there is a new object, the
  receiver, that carries the source object's name and whose key at index \<open>i\<close>
  has the mute flag, interpolation, lock flag and vertex group of the original
  key; if the original's slider range and value are within the host's ranges,
  it also has the original's upper bound and value, and a lower bound that is
  not above the original's. This holds for every host.
\<close>

lemma shape_key_fields_restored:
  assumes "apply_mods_execute h ALL_MODIFIERS_WITH_SHAPEKEYS do_reset w = (Inr FINISHED, w')"
    and "batch_fresh w (mesh_selection w)"
    and "obj \<in> set (mesh_selection w)"
    and "objects w obj = Some ob" and "meshes w (obj_data ob) = Some me"
    and "shape_keys me = Some k"
    and "0 < i" and "i < length (key_blocks k)"
  shows "\<exists>receiver rob. next_id w \<le> receiver \<and> objects w' receiver = Some rob \<and>
           obj_name rob = obj_name ob \<and>
           i < length (keys_of w' receiver) \<and>
           restored (key_blocks k ! i) (keys_of w' receiver ! i)"
proof -
  from assms(1) obtain w1 where p: "pose_only w w1"
    and b: "apply_all_modifiers_with_sk h (mesh_selection w) w1 = (Inr (), w')"
    by (rule apply_mods_execute_InrE)
  have bf: "batch_fresh w1 (mesh_selection w)"
    by (rule pose_only_batch_fresh[OF p assms(2)])
  from batch_result[OF b bf] assms(3) have "received w1 w' obj" by simp
  then have "received w w' obj" by (rule pose_only_received[OF p])
  from this[unfolded received_def, rule_format, OF assms(4,5,6)]
  obtain rid rob where r: "next_id w \<le> rid" "objects w' rid = Some rob"
    "obj_name rob = obj_name ob"
    "\<forall>i. 0 < i \<longrightarrow> i < length (key_blocks k) \<longrightarrow>
       i < length (keys_of w' rid) \<and> restored (key_blocks k ! i) (keys_of w' rid ! i)"
    by blast
  from r(4) assms(7,8) have "i < length (keys_of w' rid) \<and>
     restored (key_blocks k ! i) (keys_of w' rid ! i)" by simp
  with r(1,2,3) show ?thesis by blast
qed

text \<open>
  What the eight stores make of a key the host has just created, whose slider
  range is from 0 to 1: the name is the one the host picks, and the lower bound
  is the original's only if that is at most 0.999.
\<close>

lemma restore_metadata_new_key:
  "sk_name (restore_metadata h obj_sk taken (new_shape_key nm g)) =
     unique_name h taken (sk_name obj_sk)"
  "slider_min (restore_metadata h obj_sk taken (new_shape_key nm g)) =
     clamp (- 10) (999 / 1000) (slider_min obj_sk)"
  "999 / 1000 < slider_min obj_sk \<Longrightarrow>
     slider_min (restore_metadata h obj_sk taken (new_shape_key nm g)) \<noteq> slider_min obj_sk"
  by (simp_all add: restore_metadata_def set_sk_name_def set_slider_min_def set_slider_max_def
      set_sk_value_def clamp_def new_shape_key_def Let_def)

text \<open>
  Claim C1, evaluated. The object has the keys \<open>Basis\<close> and \<open>Loud\<close>, the second
  with a slider range from 2 to 5 and the value 3. The operator finishes, the
  receiver takes the object's place under its name, and its second key has the
  original's name, flags, upper bound and value, but the lower bound 0.999
  where the original has 2: line 239 stores the lower bound while the new key
  still has the upper bound 1, and the host keeps the lower bound below the
  upper.
\<close>

theorem shape_key_slider_min_not_restored:
  "fst (apply_mods_execute ex_host ALL_MODIFIERS_WITH_SHAPEKEYS True loud_world) = Inr FINISHED \<and>
   map sk_meta (keys_of loud_world 1) =
     [(''Basis'', False, 0, 1, 0, ''KEY_LINEAR'', False, []),
      (''Loud'', True, 2, 5, 3, ''KEY_CARDINAL'', True, ''face'')] \<and>
   objects (snd (apply_mods_execute ex_host ALL_MODIFIERS_WITH_SHAPEKEYS True loud_world)) 1 = None \<and>
   map_option obj_name
     (objects (snd (apply_mods_execute ex_host ALL_MODIFIERS_WITH_SHAPEKEYS True loud_world)) 100) =
     Some ''Face'' \<and>
   map sk_meta
     (keys_of (snd (apply_mods_execute ex_host ALL_MODIFIERS_WITH_SHAPEKEYS True loud_world)) 100) =
     [(''Basis'', False, 0, 1, 0, ''KEY_LINEAR'', False, []),
      (''Loud'', True, 999 / 1000, 5, 3, ''KEY_CARDINAL'', True, ''face'')] \<and>
   slider_min
     (keys_of (snd (apply_mods_execute ex_host ALL_MODIFIERS_WITH_SHAPEKEYS True loud_world)) 100 ! 1) \<noteq>
     slider_min (keys_of loud_world 1 ! 1)"
  by (simp add: exec_defs sk_defs mod_defs ex_defs ex_loud_def loud_world_def Let_def)

text \<open>
  The name is not always restored either. Here the original's reference key is
  named \<open>Rest\<close> and its second key \<open>Basis\<close>. The receiver's reference key is
  the one the host creates, named \<open>Basis\<close>, and the loop never renames it; so
  the name stored into the second key is taken, and the host alters it.
\<close>

lemma shape_key_name_not_restored:
  "fst (apply_mods_execute ex_host ALL_MODIFIERS_WITH_SHAPEKEYS True rest_world) = Inr FINISHED \<and>
   map sk_name (keys_of rest_world 1) = [''Rest'', ''Basis''] \<and>
   map sk_name
     (keys_of (snd (apply_mods_execute ex_host ALL_MODIFIERS_WITH_SHAPEKEYS True rest_world)) 100) =
     [''Basis'', ''Basis.001'']"
  by (simp add: exec_defs sk_defs mod_defs ex_defs rest_world_def Let_def)

text \<open>
  An object whose keys have slider ranges the new key's range admits, and names
  that are free, comes through with all eight fields of every non-basis key.
\<close>

lemma shape_key_fields_restored_example:
  "batch_fresh face_world (mesh_selection face_world) \<and>
   fst (apply_mods_execute ex_host ALL_MODIFIERS_WITH_SHAPEKEYS True face_world) = Inr FINISHED \<and>
   map_option obj_name
     (objects (snd (apply_mods_execute ex_host ALL_MODIFIERS_WITH_SHAPEKEYS True face_world)) 100) =
     Some ''Face'' \<and>
   map sk_meta
     (keys_of (snd (apply_mods_execute ex_host ALL_MODIFIERS_WITH_SHAPEKEYS True face_world)) 100) =
     [sk_meta (new_shape_key ''Basis'' [0, 0] :: int list shape_key), sk_meta ex_smile,
      sk_meta ex_frown] \<and>
   (\<exists>receiver rob.
      objects (snd (apply_mods_execute ex_host ALL_MODIFIERS_WITH_SHAPEKEYS True face_world))
        receiver = Some rob \<and>
      obj_name rob = ''Face'' \<and>
      restored ex_frown
        (keys_of (snd (apply_mods_execute ex_host ALL_MODIFIERS_WITH_SHAPEKEYS True face_world))
           receiver ! 2))"
proof -
  let ?run = "apply_mods_execute ex_host ALL_MODIFIERS_WITH_SHAPEKEYS True face_world"
  let ?k = "\<lparr>key_name = ''Key'',
             key_blocks = [new_shape_key ''Basis'' [0, 0], ex_smile, ex_frown],
             animation_data = Some (empty_anim\<lparr>drivers := [ex_driver]\<rparr>)\<rparr> :: int list key"
  let ?me = "\<lparr>geometry = [0, 0], shape_keys = Some ?k\<rparr> :: int list mesh"
  let ?ob = "ex_obj ''Face'' 11 [ex_subsurf, ex_arm_mod 7, ex_displace]"
  have ms: "mesh_selection face_world = [1]"
    by (simp add: mesh_selection_def is_mesh_def face_world_def blank_world_def ex_obj_def)
  have bf: "batch_fresh face_world (mesh_selection face_world)"
    unfolding ms by (simp add: batch_fresh_def data_of_def face_world_def blank_world_def ex_obj_def)
  have f: "fst ?run = Inr FINISHED"
    by (simp add: exec_defs sk_defs mod_defs ex_defs Let_def)
  have n: "map_option obj_name (objects (snd ?run) 100) = Some ''Face''"
    by (simp add: exec_defs sk_defs mod_defs ex_defs Let_def)
  have m: "map sk_meta (keys_of (snd ?run) 100) =
     [sk_meta (new_shape_key ''Basis'' [0, 0] :: int list shape_key), sk_meta ex_smile,
      sk_meta ex_frown]"
    by (simp add: exec_defs sk_defs mod_defs ex_defs Let_def)
  have run: "?run = (Inr FINISHED, snd ?run)"
    using f by (simp add: prod_eq_iff)
  have o: "objects face_world 1 = Some ?ob"
    by (simp add: face_world_def blank_world_def)
  have me: "meshes face_world (obj_data ?ob) = Some ?me"
    by (simp add: face_world_def blank_world_def ex_obj_def)
  have i: "1 \<in> set (mesh_selection face_world)" by (simp add: ms)
  from shape_key_fields_restored[OF run bf i o me, of ?k 2]
  obtain receiver rob where
    "objects (snd ?run) receiver = Some rob" "obj_name rob = obj_name ?ob"
    "restored (key_blocks ?k ! 2) (keys_of (snd ?run) receiver ! 2)"
    by auto
  then have "\<exists>receiver rob. objects (snd ?run) receiver = Some rob \<and> obj_name rob = ''Face'' \<and>
      restored ex_frown (keys_of (snd ?run) receiver ! 2)"
    by (auto simp: ex_obj_def)
  with bf f n m show ?thesis by blast
qed

end
